theory Spec2Isabelle
  imports Main "HOL-Library.Word"
begin

unbundle bit_operations_syntax

section \<open>Bytes, hashes and the big-endian encoders\<close>

type_synonym byte = "8 word"
type_synonym bytes = "byte list"
type_synonym u16 = "16 word"
type_synonym u64 = "64 word"

text \<open>\<open>common.Hash\<close> is \<open>[32]byte\<close>; a hash is carried as its byte sequence.\<close>

type_synonym hash = bytes

definition HashLength :: nat where
  "HashLength = 32"

text \<open>The zero value \<open>common.Hash{}\<close> of \<open>var root common.Hash\<close>.\<close>

definition zero_hash :: hash where
  "zero_hash = replicate HashLength 0"

text \<open>
  Modelled from the spec: \<open>common.BytesToHash\<close> (package \<open>common\<close>, not part of
  \<open>light/postprocess.go\<close>). The spec fixes only that a lookup that finds nothing gives
  the zero result; the definition is the usual one, the bytes right-aligned in 32 bytes,
  cropped from the left when longer.
\<close>

definition BytesToHash :: "bytes \<Rightarrow> hash" where
  "BytesToHash b =
     (let b' = (if HashLength < length b then drop (length b - HashLength) b else b)
      in replicate (HashLength - length b') 0 @ b')"

text \<open>\<open>binary.BigEndian.PutUint64\<close> and \<open>PutUint16\<close> into a fresh array.\<close>

definition PutUint64 :: "u64 \<Rightarrow> bytes" where
  "PutUint64 v =
     [ucast (drop_bit 56 v), ucast (drop_bit 48 v), ucast (drop_bit 40 v),
      ucast (drop_bit 32 v), ucast (drop_bit 24 v), ucast (drop_bit 16 v),
      ucast (drop_bit 8 v), ucast v]"

definition PutUint16 :: "u16 \<Rightarrow> bytes" where
  "PutUint16 v = [ucast (drop_bit 8 v), ucast v]"

text \<open>\<open>[]byte("...")\<close> of an ASCII literal.\<close>

definition bytes_of :: "string \<Rightarrow> bytes" where
  "bytes_of s = map (\<lambda>c. of_nat (of_char c)) s"

section \<open>Constants of \<open>postprocess.go\<close>\<close>

definition ChtFrequency :: nat where
  "ChtFrequency = 32768"

definition ChtV1Frequency :: nat where
  "ChtV1Frequency = 4096"

definition HelperTrieConfirmations :: nat where
  "HelperTrieConfirmations = 2048"

definition HelperTrieProcessConfirmations :: nat where
  "HelperTrieProcessConfirmations = 256"

definition BloomTrieFrequency :: nat where
  "BloomTrieFrequency = 32768"

definition ethBloomBitsSection :: nat where
  "ethBloomBitsSection = 4096"

definition ethBloomBitsConfirmations :: nat where
  "ethBloomBitsConfirmations = 256"

definition chtPrefix :: bytes where
  "chtPrefix = bytes_of ''chtRoot-''"

definition ChtTablePrefix :: string where
  "ChtTablePrefix = ''cht-''"

definition bloomTriePrefix :: bytes where
  "bloomTriePrefix = bytes_of ''bltRoot-''"

definition BloomTrieTablePrefix :: string where
  "BloomTrieTablePrefix = ''blt-''"

text \<open>
  Modelled from the spec: \<open>types.BloomBitLength\<close> (package \<open>core/types\<close>); the spec
  has 2048 bloom bit positions.
\<close>

definition BloomBitLength :: nat where
  "BloomBitLength = 2048"

section \<open>External collaborators\<close>

text \<open>Errors returned by the collaborators, and the run-time panics of the backends.\<close>

datatype error =
    ErrNotFound
  | MissingNodeError hash
  | ErrStoreWrite
  | ErrBloomBits
  | ErrDecompress

datatype panic =
    PanicNil
  | NilDereference
  | IndexOutOfRange
  | DivideByZero

text \<open>
  Modelled from the spec: the trie package. A trie is its key/value set; the spec has
  \<open>update(key, value)\<close>, \<open>delete(key)\<close> and a root that is a pure function of the final
  key/value set. A nil \<open>*trie.Trie\<close> is \<open>None\<close> in the backends below.
\<close>

type_synonym trie = "bytes \<rightharpoonup> bytes"

definition trie_Update :: "trie \<Rightarrow> bytes \<Rightarrow> bytes \<Rightarrow> trie" where
  "trie_Update t k v = t(k \<mapsto> v)"

definition trie_Delete :: "trie \<Rightarrow> bytes \<Rightarrow> trie" where
  "trie_Delete t k = t(k := None)"

text \<open>\<open>ChtNode\<close> structures are stored in the Canonical Hash Trie, RLP encoded.\<close>

record ChtNode =
  Hash :: hash
  Td :: int

text \<open>
  The pure collaborators whose code is outside this file and which the spec leaves
  abstract, taken as parameters: the RLP encoder (its error is discarded by the caller),
  the bitmap codec of \<open>bitutil\<close> and the Merkle root of a key/value set.
\<close>

record externs =
  rlp_EncodeToBytes :: "ChtNode \<Rightarrow> bytes"
  CompressBytes :: "bytes \<Rightarrow> bytes"
  DecompressBytes :: "bytes \<Rightarrow> int \<Rightarrow> error + bytes"
  trie_root :: "trie \<Rightarrow> hash"

text \<open>
  Modelled from the spec: \<open>ethdb.Database\<close> and the chain store of package \<open>core\<close>.
  The spec has a key-value store with get, put and atomic batch write, prefixed tables
  holding the trie nodes, a total-difficulty lookup by (hash, number) and a per-section
  bloom-bits store keyed by (bit, section, section head). Writes can fail; the three
  \<open>_err\<close> fields say what the store answers to \<open>Put\<close>, to a batch's \<open>Put\<close> (surfaced by
  the trie's \<open>CommitTo\<close>) and to a batch's \<open>Write\<close>. A failed write stores nothing.
\<close>

record database =
  kv :: "bytes \<rightharpoonup> bytes"
  tables :: "string \<Rightarrow> hash \<rightharpoonup> trie"
  tds :: "hash \<times> u64 \<rightharpoonup> int"
  bloombits :: "nat \<times> u64 \<times> hash \<Rightarrow> error + bytes"
  put_err :: "error option"
  batch_put_err :: "error option"
  batch_write_err :: "error option"

text \<open>Modelled from the spec: \<open>db.Get(key)\<close> of \<open>ethdb.Database\<close>, the data and the
  error; a key that is not there gives no data and an error.\<close>

definition db_Get :: "database \<Rightarrow> bytes \<Rightarrow> bytes \<times> error option" where
  "db_Get d k = (case kv d k of None \<Rightarrow> ([], Some ErrNotFound) | Some v \<Rightarrow> (v, None))"

text \<open>Modelled from the spec: \<open>db.Put(key, value)\<close> of \<open>ethdb.Database\<close>, the store
  after the call and the error.\<close>

definition db_Put :: "database \<Rightarrow> bytes \<Rightarrow> bytes \<Rightarrow> database \<times> error option" where
  "db_Put d k v =
     (case put_err d of
        Some e \<Rightarrow> (d, Some e)
      | None \<Rightarrow> (d\<lparr>kv := (kv d)(k \<mapsto> v)\<rparr>, None))"

text \<open>Modelled from the spec: \<open>core.GetTd(db, hash, number)\<close>, the total-difficulty
  lookup of the chain store; nil when there is none.\<close>

definition GetTd :: "database \<Rightarrow> hash \<Rightarrow> u64 \<Rightarrow> int option" where
  "GetTd d h n = tds d (h, n)"

text \<open>Modelled from the spec: \<open>core.GetBloomBits(db, bit, section, head)\<close>, the lookup in
  the per-section bloom-bits store.\<close>

definition GetBloomBits :: "database \<Rightarrow> nat \<Rightarrow> u64 \<Rightarrow> hash \<Rightarrow> error + bytes" where
  "GetBloomBits d i sec head = bloombits d (i, sec, head)"

text \<open>
  Modelled from the spec: \<open>trie.New(root, cdb)\<close> of the trie package. It opens the empty
  trie at the zero root, otherwise the trie committed under that root in the table
  \<open>cdb\<close>, or fails with a missing-node error.
\<close>

definition trie_New :: "hash \<Rightarrow> database \<Rightarrow> string \<Rightarrow> error + trie" where
  "trie_New root d cdb =
     (if root = zero_hash then Inr Map.empty
      else (case tables d cdb root of
              None \<Rightarrow> Inl (MissingNodeError root)
            | Some t \<Rightarrow> Inr t))"

text \<open>
  Modelled from the spec: the batch of \<open>ethdb\<close> and \<open>CommitTo\<close> of the trie package. A
  batch on a table holds the pending node writes. \<open>trie.CommitTo(batch)\<close> gives the
  root and an error, and puts the trie's nodes into the batch; \<open>batch.Write()\<close> flushes
  them into the table.
\<close>

type_synonym batch = "hash \<rightharpoonup> trie"

definition NewBatch :: batch where
  "NewBatch = Map.empty"

definition trie_CommitTo ::
  "externs \<Rightarrow> database \<Rightarrow> trie \<Rightarrow> batch \<Rightarrow> hash \<times> error option \<times> batch" where
  "trie_CommitTo E d t b =
     (case batch_put_err d of
        Some e \<Rightarrow> (zero_hash, Some e, b)
      | None \<Rightarrow> (trie_root E t, None, b(trie_root E t \<mapsto> t)))"

definition batch_Write :: "database \<Rightarrow> string \<Rightarrow> batch \<Rightarrow> database \<times> error option" where
  "batch_Write d cdb b =
     (case batch_write_err d of
        Some e \<Rightarrow> (d, Some e)
      | None \<Rightarrow> (d\<lparr>tables := (tables d)(cdb := tables d cdb ++ b)\<rparr>, None))"

text \<open>
  Modelled from the spec: \<open>types.Header\<close> of package \<open>core/types\<close>, as far as the
  backends look at it: the field \<open>Number\<close> (a \<open>*big.Int\<close>) and the result of the
  method \<open>Hash()\<close>.
\<close>

record header =
  Number :: int
  header_Hash :: hash

text \<open>\<open>big.Int.Uint64()\<close>: the low 64 bits of the absolute value.\<close>

definition big_Uint64 :: "int \<Rightarrow> u64" where
  "big_Uint64 n = word_of_int \<bar>n\<bar>"

section \<open>CHT roots\<close>

text \<open>\<open>GetChtRoot\<close> reads the CHT root associated to the given section; the error of
  \<open>db.Get\<close> is discarded.\<close>

definition GetChtRoot :: "database \<Rightarrow> u64 \<Rightarrow> hash \<Rightarrow> hash" where
  "GetChtRoot d sectionIdx sectionHead =
     (let encNumber = PutUint64 sectionIdx;
          (data, _) = db_Get d (chtPrefix @ encNumber @ sectionHead)
      in BytesToHash data)"

definition GetChtV2Root :: "database \<Rightarrow> u64 \<Rightarrow> hash \<Rightarrow> hash" where
  "GetChtV2Root d sectionIdx sectionHead =
     GetChtRoot d ((sectionIdx + 1) * of_nat (ChtFrequency div ChtV1Frequency) - 1) sectionHead"

text \<open>\<open>StoreChtRoot\<close> writes the root; it returns nothing, the error of \<open>db.Put\<close> is
  discarded.\<close>

definition StoreChtRoot :: "database \<Rightarrow> u64 \<Rightarrow> hash \<Rightarrow> hash \<Rightarrow> database" where
  "StoreChtRoot d sectionIdx sectionHead root =
     (let encNumber = PutUint64 sectionIdx
      in fst (db_Put d (chtPrefix @ encNumber @ sectionHead) root))"

section \<open>BloomTrie roots\<close>

definition GetBloomTrieRoot :: "database \<Rightarrow> u64 \<Rightarrow> hash \<Rightarrow> hash" where
  "GetBloomTrieRoot d sectionIdx sectionHead =
     (let encNumber = PutUint64 sectionIdx;
          (data, _) = db_Get d (bloomTriePrefix @ encNumber @ sectionHead)
      in BytesToHash data)"

definition StoreBloomTrieRoot :: "database \<Rightarrow> u64 \<Rightarrow> hash \<Rightarrow> hash \<Rightarrow> database" where
  "StoreBloomTrieRoot d sectionIdx sectionHead root =
     (let encNumber = PutUint64 sectionIdx
      in fst (db_Put d (bloomTriePrefix @ encNumber @ sectionHead) root))"

section \<open>The backends' state\<close>

text \<open>
  The fields both backends have: the store \<open>db\<close>, the table prefix \<open>cdb\<close> of the
  trie nodes (\<open>ethdb.NewTable(db, prefix)\<close>), the section in progress and the in-flight
  trie (\<open>None\<close> is the nil pointer).
\<close>

record backend =
  db :: database
  cdb :: string
  "section" :: u64
  trie :: "trie option"

record ChtIndexerBackend = backend +
  sectionSize :: u64
  lastHash :: hash

record BloomTrieIndexerBackend = backend +
  parentSectionSize :: u64
  bloomTrieRatio :: u64
  sectionHeads :: "hash list"

section \<open>\<open>ChtIndexerBackend\<close>\<close>

text \<open>The backend that \<open>NewChtIndexer\<close> hands to \<open>core.NewChainIndexer\<close>.\<close>

definition NewChtIndexer :: "database \<Rightarrow> bool \<Rightarrow> ChtIndexerBackend" where
  "NewChtIndexer d clientMode =
     \<lparr>db = d, cdb = ChtTablePrefix, section = 0, trie = None,
      sectionSize = (if clientMode then of_nat ChtFrequency else of_nat ChtV1Frequency),
      lastHash = zero_hash\<rparr>"

text \<open>\<open>Reset\<close>: the field \<open>trie\<close> takes what \<open>trie.New\<close> returns (nil with an error),
  the section is set in both cases, and the error is returned.\<close>

definition ChtIndexerBackend_Reset ::
  "ChtIndexerBackend \<Rightarrow> u64 \<Rightarrow> hash \<Rightarrow> ChtIndexerBackend \<times> error option" where
  "ChtIndexerBackend_Reset c sec lastSectionHead =
     (let root = (if 0 < sec then GetChtRoot (db c) (sec - 1) lastSectionHead else zero_hash)
      in case trie_New root (db c) (cdb c) of
           Inl err \<Rightarrow> (c\<lparr>trie := None, section := sec\<rparr>, Some err)
         | Inr t \<Rightarrow> (c\<lparr>trie := Some t, section := sec\<rparr>, None))"

text \<open>\<open>Process\<close> returns nothing; a panic is \<open>Inl\<close>, with the state at that moment.\<close>

definition ChtIndexerBackend_Process ::
  "externs \<Rightarrow> ChtIndexerBackend \<Rightarrow> header \<Rightarrow> panic \<times> ChtIndexerBackend + ChtIndexerBackend" where
  "ChtIndexerBackend_Process E c h =
     (let hash = header_Hash h;
          num = big_Uint64 (Number h);
          c1 = c\<lparr>lastHash := hash\<rparr>
      in case GetTd (db c1) hash num of
           None \<Rightarrow> Inl (PanicNil, c1)
         | Some td \<Rightarrow>
             (let encNumber = PutUint64 num;
                  data = rlp_EncodeToBytes E \<lparr>Hash = hash, Td = td\<rparr>
              in case trie c1 of
                   None \<Rightarrow> Inl (NilDereference, c1)
                 | Some t \<Rightarrow> Inr (c1\<lparr>trie := Some (trie_Update t encNumber data)\<rparr>)))"

text \<open>\<open>Commit\<close>: the results of \<open>batch.Write()\<close> and of the \<open>db.Put\<close> in
  \<open>StoreChtRoot\<close> are not looked at; the log line has no effect on the state.\<close>

definition ChtIndexerBackend_Commit ::
  "externs \<Rightarrow> ChtIndexerBackend \<Rightarrow>
     panic \<times> ChtIndexerBackend + ChtIndexerBackend \<times> error option" where
  "ChtIndexerBackend_Commit E c =
     (case trie c of
        None \<Rightarrow> Inl (NilDereference, c)
      | Some t \<Rightarrow>
          (let (root, err, batch) = trie_CommitTo E (db c) t NewBatch
           in if err \<noteq> None then Inr (c, err)
              else (let (d1, _) = batch_Write (db c) (cdb c) batch
                    in Inr (c\<lparr>db := StoreChtRoot d1 (section c) (lastHash c) root\<rparr>, None))))"

section \<open>\<open>BloomTrieIndexerBackend\<close>\<close>

definition NewBloomTrieIndexer :: "database \<Rightarrow> bool \<Rightarrow> BloomTrieIndexerBackend" where
  "NewBloomTrieIndexer d clientMode =
     (let pss = (if clientMode then of_nat BloomTrieFrequency else of_nat ethBloomBitsSection);
          ratio = of_nat BloomTrieFrequency div pss
      in \<lparr>db = d, cdb = BloomTrieTablePrefix, section = 0, trie = None,
          parentSectionSize = pss, bloomTrieRatio = ratio,
          sectionHeads = replicate (unat ratio) zero_hash\<rparr>)"

definition BloomTrieIndexerBackend_Reset ::
  "BloomTrieIndexerBackend \<Rightarrow> u64 \<Rightarrow> hash \<Rightarrow> BloomTrieIndexerBackend \<times> error option" where
  "BloomTrieIndexerBackend_Reset b sec lastSectionHead =
     (let root = (if 0 < sec then GetBloomTrieRoot (db b) (sec - 1) lastSectionHead
                  else zero_hash)
      in case trie_New root (db b) (cdb b) of
           Inl err \<Rightarrow> (b\<lparr>trie := None, section := sec\<rparr>, Some err)
         | Inr t \<Rightarrow> (b\<lparr>trie := Some t, section := sec\<rparr>, None))"

text \<open>\<open>Process\<close>: the remainder by a zero \<open>parentSectionSize\<close> and a slot index out of
  range panic, before anything is written.\<close>

definition BloomTrieIndexerBackend_Process ::
  "BloomTrieIndexerBackend \<Rightarrow> header \<Rightarrow>
     panic \<times> BloomTrieIndexerBackend + BloomTrieIndexerBackend" where
  "BloomTrieIndexerBackend_Process b h =
     (let num = big_Uint64 (Number h) - section b * of_nat BloomTrieFrequency
      in if parentSectionSize b = 0 then Inl (DivideByZero, b)
         else if (num + 1) mod parentSectionSize b = 0
           then (if unat (num div parentSectionSize b) < length (sectionHeads b)
                 then Inr (b\<lparr>sectionHeads :=
                             (sectionHeads b)[unat (num div parentSectionSize b) := header_Hash h]\<rparr>)
                 else Inl (IndexOutOfRange, b))
           else Inr b)"

text \<open>An error return or a panic inside the loops of \<open>Commit\<close>.\<close>

datatype failure = Failed error | Panicked panic

text \<open>The trie key of a bit-plane: \<open>encKey\<close>, 2 bytes of the bit index and 8 of the
  section.\<close>

definition bloomBitKey :: "nat \<Rightarrow> u64 \<Rightarrow> bytes" where
  "bloomBitKey i sec = PutUint16 (of_nat i) @ PutUint64 sec"

text \<open>The inner loop of \<open>Commit\<close>, \<open>for j := uint64(0); j < b.bloomTrieRatio; j++\<close>, over
  the values \<open>j\<close> takes, with \<open>decomp\<close> as accumulator.\<close>

fun bloom_decomp ::
  "externs \<Rightarrow> BloomTrieIndexerBackend \<Rightarrow> nat \<Rightarrow> u64 list \<Rightarrow> bytes \<Rightarrow> failure + bytes" where
  "bloom_decomp E b i [] decomp = Inr decomp"
| "bloom_decomp E b i (j # js) decomp =
     (if unat j < length (sectionHeads b)
      then (case GetBloomBits (db b) i (section b * bloomTrieRatio b + j) (sectionHeads b ! unat j) of
              Inl err \<Rightarrow> Inl (Failed err)
            | Inr data \<Rightarrow>
                (case DecompressBytes E data (sint (parentSectionSize b div 8)) of
                   Inl err2 \<Rightarrow> Inl (Failed err2)
                 | Inr decompData \<Rightarrow> bloom_decomp E b i js (decomp @ decompData)))
      else Inl (Panicked IndexOutOfRange))"

definition ratio_range :: "BloomTrieIndexerBackend \<Rightarrow> u64 list" where
  "ratio_range b = map of_nat [0..<unat (bloomTrieRatio b)]"

text \<open>The outer loop, \<open>for i := uint(0); i < types.BloomBitLength; i++\<close>, over the values
  \<open>i\<close> takes. Its state is the in-flight trie with \<open>compSize\<close> and \<open>decompSize\<close>; a
  failure comes with the state reached.\<close>

type_synonym commit_state = "trie option \<times> u64 \<times> u64"

fun bloom_planes ::
  "externs \<Rightarrow> BloomTrieIndexerBackend \<Rightarrow> nat list \<Rightarrow> commit_state \<Rightarrow>
     failure \<times> commit_state + commit_state" where
  "bloom_planes E b [] st = Inr st"
| "bloom_planes E b (i # is) (t, compSize, decompSize) =
     (let encKey = bloomBitKey i (section b)
      in case bloom_decomp E b i (ratio_range b) [] of
           Inl f \<Rightarrow> Inl (f, (t, compSize, decompSize))
         | Inr decomp \<Rightarrow>
             (let comp = CompressBytes E decomp;
                  decompSize' = decompSize + of_nat (length decomp);
                  compSize' = compSize + of_nat (length comp)
              in case t of
                   None \<Rightarrow> Inl (Panicked NilDereference, (t, compSize', decompSize'))
                 | Some tr \<Rightarrow>
                     bloom_planes E b is
                       (Some (if 0 < length comp then trie_Update tr encKey comp
                              else trie_Delete tr encKey),
                        compSize', decompSize')))"

definition BloomTrieIndexerBackend_Commit ::
  "externs \<Rightarrow> BloomTrieIndexerBackend \<Rightarrow>
     panic \<times> BloomTrieIndexerBackend + BloomTrieIndexerBackend \<times> error option" where
  "BloomTrieIndexerBackend_Commit E b =
     (case bloom_planes E b [0..<BloomBitLength] (trie b, 0, 0) of
        Inl (Failed err, (t, _, _)) \<Rightarrow> Inr (b\<lparr>trie := t\<rparr>, Some err)
      | Inl (Panicked p, (t, _, _)) \<Rightarrow> Inl (p, b\<lparr>trie := t\<rparr>)
      | Inr (t, compSize, decompSize) \<Rightarrow>
          (case t of
             None \<Rightarrow> Inl (NilDereference, b\<lparr>trie := t\<rparr>)
           | Some tr \<Rightarrow>
               (let (root, err, batch) = trie_CommitTo E (db b) tr NewBatch
                in if err \<noteq> None then Inr (b\<lparr>trie := t\<rparr>, err)
                   else (let (d1, _) = batch_Write (db b) (cdb b) batch
                         in if unat (bloomTrieRatio b - 1) < length (sectionHeads b)
                            then Inr (b\<lparr>trie := t,
                                        db := StoreBloomTrieRoot d1 (section b)
                                                (sectionHeads b ! unat (bloomTrieRatio b - 1)) root\<rparr>,
                                      None)
                            else Inl (IndexOutOfRange, b\<lparr>trie := t, db := d1\<rparr>)))))"

section \<open>The scheduler's cycle\<close>

text \<open>
  Modelled from the spec: the scheduler (\<open>core.ChainIndexer\<close>) calls, for each section,
  \<open>Reset(section, priorSectionHead)\<close>, then \<open>Process(header)\<close> once per header in
  order, then \<open>Commit()\<close>. It stops at an error of \<open>Reset\<close>; a panic ends the run.
\<close>

fun Cht_Process_all ::
  "externs \<Rightarrow> ChtIndexerBackend \<Rightarrow> header list \<Rightarrow> panic \<times> ChtIndexerBackend + ChtIndexerBackend" where
  "Cht_Process_all E c [] = Inr c"
| "Cht_Process_all E c (h # hs) =
     (case ChtIndexerBackend_Process E c h of
        Inl p \<Rightarrow> Inl p
      | Inr c' \<Rightarrow> Cht_Process_all E c' hs)"

definition Cht_cycle ::
  "externs \<Rightarrow> ChtIndexerBackend \<Rightarrow> u64 \<Rightarrow> hash \<Rightarrow> header list \<Rightarrow>
     panic \<times> ChtIndexerBackend + ChtIndexerBackend \<times> error option" where
  "Cht_cycle E c sec lastSectionHead hs =
     (case ChtIndexerBackend_Reset c sec lastSectionHead of
        (c1, Some err) \<Rightarrow> Inr (c1, Some err)
      | (c1, None) \<Rightarrow>
          (case Cht_Process_all E c1 hs of
             Inl p \<Rightarrow> Inl p
           | Inr c2 \<Rightarrow> ChtIndexerBackend_Commit E c2))"

fun Bloom_Process_all ::
  "BloomTrieIndexerBackend \<Rightarrow> header list \<Rightarrow>
     panic \<times> BloomTrieIndexerBackend + BloomTrieIndexerBackend" where
  "Bloom_Process_all b [] = Inr b"
| "Bloom_Process_all b (h # hs) =
     (case BloomTrieIndexerBackend_Process b h of
        Inl p \<Rightarrow> Inl p
      | Inr b' \<Rightarrow> Bloom_Process_all b' hs)"

section \<open>Notions used in the statements\<close>

text \<open>What \<open>Process\<close> of the bloom-trie backend leaves as it was.\<close>

definition bloom_frame :: "BloomTrieIndexerBackend \<Rightarrow> BloomTrieIndexerBackend \<Rightarrow> bool" where
  "bloom_frame b b' \<longleftrightarrow>
     db b' = db b \<and> cdb b' = cdb b \<and> trie b' = trie b \<and> section b' = section b \<and>
     parentSectionSize b' = parentSectionSize b \<and> bloomTrieRatio b' = bloomTrieRatio b \<and>
     length (sectionHeads b') = length (sectionHeads b)"

text \<open>
  The chunk of parent sub-section \<open>j\<close> for bit \<open>i\<close>, in the words of the specification:
  \<open>DecompressBytes(GetBloomBits(i, section * bloomTrieRatio + j, sectionHeads[j]),
  parentSectionSize / 8)\<close>.
\<close>

definition bloom_chunk ::
  "externs \<Rightarrow> BloomTrieIndexerBackend \<Rightarrow> nat \<Rightarrow> u64 \<Rightarrow> error + bytes" where
  "bloom_chunk E b i j =
     (case GetBloomBits (db b) i (section b * bloomTrieRatio b + j) (sectionHeads b ! unat j) of
        Inl err \<Rightarrow> Inl err
      | Inr data \<Rightarrow> DecompressBytes E data (sint (parentSectionSize b div 8)))"

text \<open>The entry under a bit-plane's key after its iteration of the outer loop: the
  compression, or no entry when the compression is empty.\<close>

definition plane_entry :: "externs \<Rightarrow> bytes \<Rightarrow> bytes option" where
  "plane_entry E decomp =
     (if CompressBytes E decomp = [] then None else Some (CompressBytes E decomp))"

text \<open>The trie after \<open>Process\<close> on each header of a list in order: one entry per header
  with a total difficulty, under its block number.\<close>

fun Cht_inserts :: "externs \<Rightarrow> database \<Rightarrow> header list \<Rightarrow> trie \<Rightarrow> trie" where
  "Cht_inserts E d [] t = t"
| "Cht_inserts E d (h # hs) t =
     (case GetTd d (header_Hash h) (big_Uint64 (Number h)) of
        None \<Rightarrow> Cht_inserts E d hs t
      | Some x \<Rightarrow>
          Cht_inserts E d hs
            (t(PutUint64 (big_Uint64 (Number h))
                 \<mapsto> rlp_EncodeToBytes E \<lparr>Hash = header_Hash h, Td = x\<rparr>)))"

section \<open>Concrete stores and headers\<close>

text \<open>A healthy, empty store whose bloom-bits store answers every request with an empty
  bitmap, and collaborators that encode and compress nothing.\<close>

definition ex_db :: database where
  "ex_db = \<lparr>kv = Map.empty, tables = (\<lambda>_. Map.empty), tds = Map.empty,
          bloombits = (\<lambda>_. Inr []), put_err = None, batch_put_err = None,
          batch_write_err = None\<rparr>"

definition ex_E :: externs where
  "ex_E = \<lparr>rlp_EncodeToBytes = (\<lambda>n. Hash n), CompressBytes = (\<lambda>x. x),
         DecompressBytes = (\<lambda>x n. Inr x), trie_root = (\<lambda>t. [1])\<rparr>"

definition ex_hdr :: header where
  "ex_hdr = \<lparr>Number = 4095, header_Hash = [7]\<rparr>"

definition ex_bloom0 :: BloomTrieIndexerBackend where
  "ex_bloom0 = NewBloomTrieIndexer ex_db False"

text \<open>A store that knows the total difficulty of \<open>ex_hdr\<close>, and a CHT backend on it
  after \<open>Reset\<close>.\<close>

definition ex_db_td :: database where
  "ex_db_td = ex_db\<lparr>tds := [(header_Hash ex_hdr, big_Uint64 (Number ex_hdr)) \<mapsto> 10]\<rparr>"

definition ex_cht :: ChtIndexerBackend where
  "ex_cht = fst (ChtIndexerBackend_Reset (NewChtIndexer ex_db_td False) 0 zero_hash)"

text \<open>A bloom-trie backend on the empty store after \<open>Reset\<close>, and collaborators whose
  compression is never empty.\<close>

definition ex_bloom :: BloomTrieIndexerBackend where
  "ex_bloom = fst (BloomTrieIndexerBackend_Reset ex_bloom0 0 zero_hash)"

definition ex_E1 :: externs where
  "ex_E1 = ex_E\<lparr>CompressBytes := (\<lambda>x. 1 # x)\<rparr>"

text \<open>A store in trouble: root records whose trie nodes are missing, no bloom bits,
  and writes that fail at \<open>Put\<close> and at a batch's \<open>Write\<close>; the same store failing
  already at a batch's \<open>Put\<close>; and backends on them with an empty trie open.\<close>

definition ex_db_broken :: database where
  "ex_db_broken =
     \<lparr>kv = (\<lambda>_. Some [1]), tables = (\<lambda>_. Map.empty),
      tds = Map.empty, bloombits = (\<lambda>_. Inl ErrBloomBits), put_err = Some ErrStoreWrite,
      batch_put_err = None, batch_write_err = Some ErrStoreWrite\<rparr>"

definition ex_cht_broken :: ChtIndexerBackend where
  "ex_cht_broken = (NewChtIndexer ex_db_broken False)\<lparr>trie := Some Map.empty\<rparr>"

definition ex_cht_noput :: ChtIndexerBackend where
  "ex_cht_noput = ex_cht_broken\<lparr>db := ex_db_broken\<lparr>batch_put_err := Some ErrStoreWrite\<rparr>\<rparr>"

definition ex_bloom_broken :: BloomTrieIndexerBackend where
  "ex_bloom_broken = (NewBloomTrieIndexer ex_db_broken False)\<lparr>trie := Some Map.empty\<rparr>"

definition ex_bloom_noput :: BloomTrieIndexerBackend where
  "ex_bloom_noput = ex_bloom\<lparr>db := ex_db\<lparr>batch_put_err := Some ErrStoreWrite\<rparr>\<rparr>"

text \<open>A store whose bloom-bits answer names the request (the bit index, the low byte of
  the parent section, then the parent section's head); the last headers of the eight
  parent sub-sections of section 1, with hashes \<open>[10]\<close> to \<open>[17]\<close>; and a bloom-trie
  backend after \<open>Reset\<close> for section 1 and \<open>Process\<close> on these headers.\<close>

definition ex_db_bits :: database where
  "ex_db_bits = ex_db\<lparr>bloombits := (\<lambda>(i, sec, head). Inr (of_nat i # ucast sec # head))\<rparr>"

definition ex_hdrs :: "header list" where
  "ex_hdrs =
     [\<lparr>Number = 36863, header_Hash = [10]\<rparr>, \<lparr>Number = 40959, header_Hash = [11]\<rparr>,
      \<lparr>Number = 45055, header_Hash = [12]\<rparr>, \<lparr>Number = 49151, header_Hash = [13]\<rparr>,
      \<lparr>Number = 53247, header_Hash = [14]\<rparr>, \<lparr>Number = 57343, header_Hash = [15]\<rparr>,
      \<lparr>Number = 61439, header_Hash = [16]\<rparr>, \<lparr>Number = 65535, header_Hash = [17]\<rparr>]"

definition ex_bloom_reset :: BloomTrieIndexerBackend where
  "ex_bloom_reset =
     fst (BloomTrieIndexerBackend_Reset (NewBloomTrieIndexer ex_db_bits False) 1 zero_hash)"

definition ex_bloom_rec :: BloomTrieIndexerBackend where
  "ex_bloom_rec =
     ex_bloom_reset\<lparr>sectionHeads := [[10], [11], [12], [13], [14], [15], [16], [17]]\<rparr>"

section \<open>Properties of the encoders\<close>

lemma u64_bytes_eqI:
  fixes a b :: u64
  assumes "\<And>k. k < 8 \<Longrightarrow> (ucast (drop_bit (8 * k) a) :: byte) = ucast (drop_bit (8 * k) b)"
  shows "a = b"
proof (rule bit_word_eqI)
  fix n assume n: "n < LENGTH(64)"
  then have k: "n div 8 < 8" by simp
  have "bit (ucast (drop_bit (8 * (n div 8)) a) :: byte) (n mod 8)
      = bit (ucast (drop_bit (8 * (n div 8)) b) :: byte) (n mod 8)"
    using assms [OF k] by simp
  then show "bit a n = bit b n"
    by (simp add: bit_ucast_iff bit_drop_bit_eq)
qed

lemma PutUint64_inj: "PutUint64 a = PutUint64 b \<Longrightarrow> a = b"
proof (rule u64_bytes_eqI)
  fix k :: nat assume eq: "PutUint64 a = PutUint64 b" and "k < 8"
  then have "k = 0 \<or> k = 1 \<or> k = 2 \<or> k = 3 \<or> k = 4 \<or> k = 5 \<or> k = 6 \<or> k = 7" by arith
  with eq show "(ucast (drop_bit (8 * k) a) :: byte) = ucast (drop_bit (8 * k) b)"
    by (auto simp: PutUint64_def)
qed

lemma length_PutUint64: "length (PutUint64 v) = 8"
  by (simp add: PutUint64_def)

lemma length_PutUint16: "length (PutUint16 v) = 2"
  by (simp add: PutUint16_def)

lemma PutUint16_inj: "PutUint16 a = PutUint16 b \<Longrightarrow> a = b"
proof (rule bit_word_eqI)
  fix n assume eq: "PutUint16 a = PutUint16 b" and n: "n < LENGTH(16)"
  then have k: "n div 8 = 0 \<or> n div 8 = 1" by auto
  from eq have "(ucast (drop_bit (8 * (n div 8)) a) :: byte) = ucast (drop_bit (8 * (n div 8)) b)"
    using k by (auto simp: PutUint16_def)
  then have "bit (ucast (drop_bit (8 * (n div 8)) a) :: byte) (n mod 8)
      = bit (ucast (drop_bit (8 * (n div 8)) b) :: byte) (n mod 8)"
    by simp
  then show "bit a n = bit b n"
    by (simp add: bit_ucast_iff bit_drop_bit_eq)
qed

text \<open>The trie keys of two bit indices below \<open>2 ^ 16\<close> differ.\<close>

lemma bloomBitKey_inj:
  assumes "bloomBitKey i s = bloomBitKey i' s'" "i < 65536" "i' < 65536"
  shows "i = i' \<and> s = s'"
proof -
  from assms(1) have "PutUint16 (of_nat i) = PutUint16 (of_nat i')" "PutUint64 s = PutUint64 s'"
    by (simp_all add: bloomBitKey_def length_PutUint16)
  then have "(of_nat i :: u16) = of_nat i'" "s = s'"
    by (auto dest: PutUint16_inj PutUint64_inj)
  then have "i mod 2 ^ 16 = i' mod 2 ^ 16"
    by (simp add: word_of_nat_eq_iff take_bit_eq_mod)
  with assms(2,3) show ?thesis using \<open>s = s'\<close> by simp
qed

lemma BytesToHash_Nil: "BytesToHash [] = zero_hash"
  by (simp add: BytesToHash_def zero_hash_def HashLength_def)

section \<open>The section conversion of \<open>GetChtV2Root\<close>\<close>

text \<open>
  C3. For every LES/2 section index \<open>v2\<close> and section head \<open>h\<close>, \<open>GetChtV2Root\<close> is
  \<open>GetChtRoot\<close> at the LES/1 section \<open>(v2 + 1) * (32768 / 4096) - 1 = (v2 + 1) * 8 - 1\<close>,
  computed in \<open>uint64\<close>; section 0 maps to section 7. Below \<open>2 ^ 61 - 1\<close> nothing wraps
  and the index is the natural number \<open>(v2 + 1) * 8 - 1\<close>.
\<close>

theorem GetChtV2Root_section:
  "GetChtV2Root d v2 h = GetChtRoot d ((v2 + 1) * 8 - 1) h
   \<and> GetChtV2Root d 0 h = GetChtRoot d 7 h
   \<and> (unat v2 + 1 < 2 ^ 61 \<longrightarrow> unat ((v2 + 1) * 8 - 1) = (unat v2 + 1) * 8 - 1)"
proof -
  have a: "GetChtV2Root d v h = GetChtRoot d ((v + 1) * 8 - 1) h" for v
    by (simp add: GetChtV2Root_def ChtFrequency_def ChtV1Frequency_def)
  have b: "unat ((v2 + 1) * 8 - 1) = (unat v2 + 1) * 8 - 1" if "unat v2 + 1 < 2 ^ 61"
  proof -
    have 1: "unat (v2 + 1) = unat v2 + 1"
      using that by (simp add: unat_word_ariths)
    have 2: "unat ((v2 + 1) * 8) = (unat v2 + 1) * 8"
      using that 1 by (simp add: unat_word_ariths)
    have "1 \<le> (v2 + 1) * 8"
      using 2 by (simp add: word_le_nat_alt)
    then have "unat ((v2 + 1) * 8 - 1) = unat ((v2 + 1) * 8) - unat (1 :: u64)"
      by (rule unat_sub)
    with 2 show ?thesis by simp
  qed
  show ?thesis using a [of v2] a [of 0] b by simp
qed

theorem GetChtV2Root_section_witness:
  "GetChtV2Root ex_db 3 [] = GetChtRoot ex_db 31 [] \<and> unat ((3 + 1) * 8 - 1 :: u64) = 31"
  using GetChtV2Root_section [of ex_db 3 "[]"] by simp

section \<open>Root lookups that find nothing\<close>

text \<open>
  C8. When no root record is stored for a section index and section head, \<open>GetChtRoot\<close>
  and \<open>GetBloomTrieRoot\<close> return the zero hash. Both are total functions into hashes:
  the error of the store's \<open>Get\<close> is discarded and there is no error result.
\<close>

theorem root_lookup_absent:
  "(kv d (chtPrefix @ PutUint64 s @ h) = None \<longrightarrow> GetChtRoot d s h = zero_hash)
   \<and> (kv d (bloomTriePrefix @ PutUint64 s @ h) = None \<longrightarrow> GetBloomTrieRoot d s h = zero_hash)"
  by (simp add: GetChtRoot_def GetBloomTrieRoot_def db_Get_def BytesToHash_Nil)

theorem root_lookup_absent_witness:
  "GetChtRoot ex_db 5 zero_hash = replicate 32 0 \<and> GetBloomTrieRoot ex_db 5 zero_hash = replicate 32 0"
  using root_lookup_absent [of ex_db 5 zero_hash] by (simp add: ex_db_def zero_hash_def HashLength_def)

section \<open>\<open>ChtIndexerBackend.Process\<close> without a total difficulty\<close>

text \<open>
  C4. When the total-difficulty lookup by (hash, number) of the header finds nothing,
  \<open>ChtIndexerBackend.Process\<close> panics with \<open>panic(nil)\<close>. Only \<open>lastHash\<close> has been
  written by then: the trie and the store are as before, so nothing was inserted. \<open>Process\<close>
  has no error result.
\<close>

theorem Cht_Process_missing_td_panics:
  assumes "GetTd (db c) (header_Hash h) (big_Uint64 (Number h)) = None"
  shows "ChtIndexerBackend_Process E c h = Inl (PanicNil, c\<lparr>lastHash := header_Hash h\<rparr>)
         \<and> trie (c\<lparr>lastHash := header_Hash h\<rparr>) = trie c
         \<and> db (c\<lparr>lastHash := header_Hash h\<rparr>) = db c"
  using assms by (simp add: ChtIndexerBackend_Process_def Let_def)

theorem Cht_Process_missing_td_panics_witness:
  "ChtIndexerBackend_Process ex_E (NewChtIndexer ex_db False) ex_hdr
     = Inl (PanicNil, (NewChtIndexer ex_db False)\<lparr>lastHash := header_Hash ex_hdr\<rparr>)"
proof -
  have "GetTd (db (NewChtIndexer ex_db False)) (header_Hash ex_hdr) (big_Uint64 (Number ex_hdr)) = None"
    by (simp add: NewChtIndexer_def GetTd_def ex_db_def)
  from Cht_Process_missing_td_panics [OF this] show ?thesis by simp
qed

section \<open>The frame of \<open>BloomTrieIndexerBackend.Process\<close>\<close>

lemma Bloom_Process_panic:
  "BloomTrieIndexerBackend_Process b h = Inl (p, b') \<Longrightarrow> b' = b"
  by (auto simp: BloomTrieIndexerBackend_Process_def Let_def split: if_splits)

lemma Bloom_Process_slot:
  assumes "BloomTrieIndexerBackend_Process b h = Inr b'"
  shows "\<exists>k. b' = b\<lparr>sectionHeads := (sectionHeads b)[k := header_Hash h]\<rparr>"
proof (cases "b' = b")
  case True
  have "b = b\<lparr>sectionHeads := (sectionHeads b)[length (sectionHeads b) := header_Hash h]\<rparr>"
    by (cases b) (simp add: list_update_beyond)
  with True show ?thesis by blast
next
  case False
  with assms show ?thesis
    by (auto simp: BloomTrieIndexerBackend_Process_def Let_def split: if_splits)
qed

lemma Bloom_Process_all_frame:
  "Bloom_Process_all b hs = Inr b' \<or> Bloom_Process_all b hs = Inl (p, b') \<Longrightarrow> bloom_frame b b'"
proof (induction hs arbitrary: b)
  case Nil
  then show ?case by (auto simp: bloom_frame_def)
next
  case (Cons h hs)
  show ?case
  proof (cases "BloomTrieIndexerBackend_Process b h")
    case (Inl pb)
    with Cons.prems have "pb = (p, b')" by auto
    with Inl have "b' = b" by (auto dest: Bloom_Process_panic)
    then show ?thesis by (simp add: bloom_frame_def)
  next
    case (Inr b1)
    from Bloom_Process_slot [OF Inr] obtain k where
      b1: "b1 = b\<lparr>sectionHeads := (sectionHeads b)[k := header_Hash h]\<rparr>" by blast
    from Cons.prems Inr
    have "Bloom_Process_all b1 hs = Inr b' \<or> Bloom_Process_all b1 hs = Inl (p, b')" by simp
    from Cons.IH [OF this] show ?thesis by (simp add: b1 bloom_frame_def)
  qed
qed

text \<open>
  C10. \<open>BloomTrieIndexerBackend.Process\<close> changes at most one slot of \<open>sectionHeads\<close>
  and nothing else: a call that returns leaves the backend as it was but for one slot
  set to the header's hash, a call that panics leaves it untouched, and any sequence of
  calls leaves the in-flight trie, the store and the other fields as they were.
\<close>

theorem Bloom_Process_frame:
  "(BloomTrieIndexerBackend_Process b h = Inl (p, b1) \<longrightarrow> b1 = b)
   \<and> (BloomTrieIndexerBackend_Process b h = Inr b1 \<longrightarrow>
        (\<exists>k. b1 = b\<lparr>sectionHeads := (sectionHeads b)[k := header_Hash h]\<rparr>))
   \<and> (Bloom_Process_all b hs = Inr b2 \<or> Bloom_Process_all b hs = Inl (p, b2) \<longrightarrow>
        bloom_frame b b2)"
  using Bloom_Process_panic [of b h p b1] Bloom_Process_slot [of b h b1]
    Bloom_Process_all_frame [of b hs b2 p]
  by blast

theorem Bloom_Process_frame_witness:
  "BloomTrieIndexerBackend_Process ex_bloom0 ex_hdr
     = Inr (ex_bloom0\<lparr>sectionHeads := (sectionHeads ex_bloom0)[0 := header_Hash ex_hdr]\<rparr>)
   \<and> Bloom_Process_all ex_bloom0 [ex_hdr]
     = Inr (ex_bloom0\<lparr>sectionHeads := (sectionHeads ex_bloom0)[0 := header_Hash ex_hdr]\<rparr>)
   \<and> bloom_frame ex_bloom0 (ex_bloom0\<lparr>sectionHeads := (sectionHeads ex_bloom0)[0 := header_Hash ex_hdr]\<rparr>)"
proof -
  have e: "BloomTrieIndexerBackend_Process ex_bloom0 ex_hdr
     = Inr (ex_bloom0\<lparr>sectionHeads := (sectionHeads ex_bloom0)[0 := header_Hash ex_hdr]\<rparr>)"
    by (simp add: BloomTrieIndexerBackend_Process_def ex_bloom0_def NewBloomTrieIndexer_def
        ex_hdr_def big_Uint64_def BloomTrieFrequency_def ethBloomBitsSection_def Let_def)
  then have a: "Bloom_Process_all ex_bloom0 [ex_hdr]
     = Inr (ex_bloom0\<lparr>sectionHeads := (sectionHeads ex_bloom0)[0 := header_Hash ex_hdr]\<rparr>)"
    by simp
  from Bloom_Process_frame
    [of ex_bloom0 ex_hdr PanicNil "ex_bloom0\<lparr>sectionHeads := (sectionHeads ex_bloom0)[0 := header_Hash ex_hdr]\<rparr>"
        "[ex_hdr]" "ex_bloom0\<lparr>sectionHeads := (sectionHeads ex_bloom0)[0 := header_Hash ex_hdr]\<rparr>"] e a
  show ?thesis by blast
qed

section \<open>Index bounds of the bloom-trie backend\<close>

lemma NewBloomTrieIndexer_cfg:
  "(parentSectionSize (NewBloomTrieIndexer d cm) = 32768 \<and> bloomTrieRatio (NewBloomTrieIndexer d cm) = 1
      \<and> length (sectionHeads (NewBloomTrieIndexer d cm)) = 1) \<or>
   (parentSectionSize (NewBloomTrieIndexer d cm) = 4096 \<and> bloomTrieRatio (NewBloomTrieIndexer d cm) = 8
      \<and> length (sectionHeads (NewBloomTrieIndexer d cm)) = 8)"
  by (cases cm) (simp_all add: NewBloomTrieIndexer_def BloomTrieFrequency_def ethBloomBitsSection_def Let_def)

lemma Bloom_offset_exact:
  fixes s :: u64
  assumes lo: "uint s * 32768 \<le> N" and hi: "N < (uint s + 1) * 32768"
  shows "uint (big_Uint64 N - s * of_nat BloomTrieFrequency) = N - uint s * 32768"
    and "s * of_nat BloomTrieFrequency \<le> big_Uint64 N"
proof -
  have N0: "0 \<le> N" using lo uint_ge_0 [of s] by (smt (verit) mult_nonneg_nonneg)
  have a: "big_Uint64 N = word_of_int N" using N0 by (simp add: big_Uint64_def)
  have b: "s * of_nat BloomTrieFrequency = (word_of_int (uint s * 32768) :: u64)"
    by (simp add: BloomTrieFrequency_def)
  define w where "w = N - uint s * 32768"
  have w: "0 \<le> w" "w < 2 ^ 64" using lo hi by (simp_all add: w_def)
  have "big_Uint64 N - s * of_nat BloomTrieFrequency = (word_of_int w :: u64)"
    unfolding a b w_def by simp
  moreover have "uint (word_of_int w :: u64) = w"
    using w by (simp add: uint_word_of_int)
  ultimately show 1: "uint (big_Uint64 N - s * of_nat BloomTrieFrequency) = N - uint s * 32768"
    by (simp only: w_def)
  have "(uint s * 32768) mod 2 ^ 64 = (32768 * uint s) mod (32768 * 2 ^ 49)"
    by (simp add: mult.commute)
  also have "\<dots> = 32768 * (uint s mod 2 ^ 49)"
    by (rule mult_mod_right [symmetric])
  finally have "(uint s * 32768) mod 2 ^ 64 = 32768 * (uint s mod 2 ^ 49)" .
  moreover have "uint s mod 2 ^ 49 \<le> 2 ^ 49 - 1"
    by (smt (verit) pos_mod_bound zero_less_power)
  ultimately have c: "(uint s * 32768) mod 2 ^ 64 + (N - uint s * 32768) < 2 ^ 64"
    using hi by simp
  have "uint (s * of_nat BloomTrieFrequency) = (uint s * 32768) mod 2 ^ 64"
    by (simp add: BloomTrieFrequency_def uint_word_ariths)
  moreover have "uint (big_Uint64 N) = N mod 2 ^ 64"
    unfolding a by (simp add: uint_word_of_int)
  moreover have "N mod 2 ^ 64 = ((uint s * 32768) mod 2 ^ 64 + (N - uint s * 32768)) mod 2 ^ 64"
    by (simp add: mod_simps)
  moreover have "\<dots> = (uint s * 32768) mod 2 ^ 64 + (N - uint s * 32768)"
    using c lo by (simp add: mod_pos_pos_trivial)
  ultimately show "s * of_nat BloomTrieFrequency \<le> big_Uint64 N"
    using lo by (simp add: word_le_def)
qed


text \<open>
  C9. Let the backend have the section sizes, the ratio and the number of slots that
  \<open>NewBloomTrieIndexer\<close> sets up (client or server mode), and let the header's number
  lie in \<open>[section * 32768, (section + 1) * 32768)\<close>. Then the subtraction in \<open>Process\<close>
  does not underflow and gives the true offset, the slot index \<open>num / parentSectionSize\<close>
  is below \<open>bloomTrieRatio\<close> and inside \<open>sectionHeads\<close> (whether or not the header ends a
  parent section), \<open>bloomTrieRatio\<close> is at least 1, the slot \<open>bloomTrieRatio - 1\<close> read by
  \<open>Commit\<close> is inside \<open>sectionHeads\<close>, and \<open>Process\<close> returns without a panic.
\<close>

theorem Bloom_Process_in_bounds:
  assumes pss: "parentSectionSize b = parentSectionSize (NewBloomTrieIndexer d clientMode)"
    and ratio: "bloomTrieRatio b = bloomTrieRatio (NewBloomTrieIndexer d clientMode)"
    and len: "length (sectionHeads b) = length (sectionHeads (NewBloomTrieIndexer d clientMode))"
    and lo: "uint (section b) * 32768 \<le> Number h"
    and hi: "Number h < (uint (section b) + 1) * 32768"
  shows "section b * of_nat BloomTrieFrequency \<le> big_Uint64 (Number h)
    \<and> uint (big_Uint64 (Number h) - section b * of_nat BloomTrieFrequency)
        = Number h - uint (section b) * 32768
    \<and> unat ((big_Uint64 (Number h) - section b * of_nat BloomTrieFrequency) div parentSectionSize b)
        < unat (bloomTrieRatio b)
    \<and> unat ((big_Uint64 (Number h) - section b * of_nat BloomTrieFrequency) div parentSectionSize b)
        < length (sectionHeads b)
    \<and> 1 \<le> bloomTrieRatio b
    \<and> unat (bloomTrieRatio b - 1) < length (sectionHeads b)
    \<and> (\<exists>b'. BloomTrieIndexerBackend_Process b h = Inr b')"
proof -
  define num where "num = big_Uint64 (Number h) - section b * of_nat BloomTrieFrequency"
  have le: "section b * of_nat BloomTrieFrequency \<le> big_Uint64 (Number h)"
    using lo hi by (rule Bloom_offset_exact(2))
  have off: "uint num = Number h - uint (section b) * 32768"
    unfolding num_def using lo hi by (rule Bloom_offset_exact(1))
  then have "uint num < 32768" using hi by simp
  then have small: "unat num < 32768" unfolding unat_eq_nat_uint by linarith
  have "(parentSectionSize b = 32768 \<and> bloomTrieRatio b = 1 \<and> length (sectionHeads b) = 1) \<or>
      (parentSectionSize b = 4096 \<and> bloomTrieRatio b = 8 \<and> length (sectionHeads b) = 8)"
    unfolding pss ratio len by (rule NewBloomTrieIndexer_cfg)
  then consider
      (client) "parentSectionSize b = 32768" "bloomTrieRatio b = 1" "length (sectionHeads b) = 1"
    | (server) "parentSectionSize b = 4096" "bloomTrieRatio b = 8" "length (sectionHeads b) = 8"
    by blast
  then have rest: "unat (num div parentSectionSize b) < unat (bloomTrieRatio b)
      \<and> unat (num div parentSectionSize b) < length (sectionHeads b)
      \<and> 1 \<le> bloomTrieRatio b \<and> unat (bloomTrieRatio b - 1) < length (sectionHeads b)
      \<and> parentSectionSize b \<noteq> 0"
  proof cases
    case client
    then show ?thesis using small by (simp add: unat_div)
  next
    case server
    have "unat num div 4096 < 8" using small by simp
    with server show ?thesis by (simp add: unat_div)
  qed
  then have "\<exists>b'. BloomTrieIndexerBackend_Process b h = Inr b'"
    by (simp add: BloomTrieIndexerBackend_Process_def Let_def flip: num_def)
  with le off rest show ?thesis by (simp add: num_def)
qed

theorem Bloom_Process_in_bounds_witness:
  "unat ((big_Uint64 (Number ex_hdr) - section ex_bloom0 * of_nat BloomTrieFrequency) div parentSectionSize ex_bloom0)
        < length (sectionHeads ex_bloom0)
    \<and> unat (bloomTrieRatio ex_bloom0 - 1) < length (sectionHeads ex_bloom0)
    \<and> (\<exists>b'. BloomTrieIndexerBackend_Process ex_bloom0 ex_hdr = Inr b')"
proof -
  have s: "section ex_bloom0 = 0" by (simp add: ex_bloom0_def NewBloomTrieIndexer_def Let_def)
  have "uint (section ex_bloom0) * 32768 \<le> Number ex_hdr" "Number ex_hdr < (uint (section ex_bloom0) + 1) * 32768"
    by (simp_all add: s ex_hdr_def)
  from Bloom_Process_in_bounds [of ex_bloom0 ex_db False ex_hdr, OF _ _ _ this]
  show ?thesis by (simp add: ex_bloom0_def)
qed


section \<open>\<open>ChtIndexerBackend\<close>: what \<open>Process\<close> inserts and \<open>Commit\<close> stores\<close>

lemma Cht_Process_step:
  assumes "GetTd (db c) (header_Hash h) (big_Uint64 (Number h)) = Some d" "trie c = Some t"
  shows "ChtIndexerBackend_Process E c h
      = Inr (c\<lparr>lastHash := header_Hash h,
                trie := Some (t(PutUint64 (big_Uint64 (Number h))
                         \<mapsto> rlp_EncodeToBytes E \<lparr>Hash = header_Hash h, Td = d\<rparr>))\<rparr>)"
  using assms by (simp add: ChtIndexerBackend_Process_def Let_def trie_Update_def)

lemma kv_batch_Write: "kv (fst (batch_Write d tb bt)) = kv d"
  and put_err_batch_Write: "put_err (fst (batch_Write d tb bt)) = put_err d"
  by (simp_all add: batch_Write_def split: option.split)

lemma kv_StoreChtRoot:
  "put_err d = None \<Longrightarrow> kv (StoreChtRoot d s h r) = (kv d)(chtPrefix @ PutUint64 s @ h \<mapsto> r)"
  by (simp add: StoreChtRoot_def db_Put_def Let_def)

lemma Cht_Commit_step:
  assumes "trie c = Some t" "batch_put_err (db c) = None"
  shows "ChtIndexerBackend_Commit E c
      = Inr (c\<lparr>db := StoreChtRoot (fst (batch_Write (db c) (cdb c) (NewBatch(trie_root E t \<mapsto> t))))
                        (section c) (lastHash c) (trie_root E t)\<rparr>, None)"
  using assms
  by (simp add: ChtIndexerBackend_Commit_def trie_CommitTo_def Let_def split: prod.split)

text \<open>
  C5. When the total difficulty \<open>d\<close> of the header is present (and a trie is open),
  \<open>ChtIndexerBackend.Process\<close> inserts the RLP encoding of \<open>{Hash: header.Hash(), Td: d}\<close>
  under the 8-byte big-endian block number and records the header's hash as \<open>lastHash\<close>.
  \<open>Commit\<close> then takes the trie's root and puts it under
  \<open>chtPrefix \<parallel> beU64(section) \<parallel> lastHash\<close>; when the store accepts the write, the record
  is there afterwards.
\<close>

theorem Cht_Process_and_Commit:
  "(GetTd (db c) (header_Hash h) (big_Uint64 (Number h)) = Some d \<and> trie c = Some t \<longrightarrow>
      ChtIndexerBackend_Process E c h
        = Inr (c\<lparr>lastHash := header_Hash h,
                  trie := Some (t(PutUint64 (big_Uint64 (Number h))
                           \<mapsto> rlp_EncodeToBytes E \<lparr>Hash = header_Hash h, Td = d\<rparr>))\<rparr>))
   \<and> (trie c = Some t \<and> batch_put_err (db c) = None \<longrightarrow>
        (\<exists>c'. ChtIndexerBackend_Commit E c = Inr (c', None)
           \<and> db c' = StoreChtRoot (fst (batch_Write (db c) (cdb c) (NewBatch(trie_root E t \<mapsto> t))))
                        (section c) (lastHash c) (trie_root E t)
           \<and> (put_err (db c) = None \<longrightarrow>
                kv (db c') = (kv (db c))(chtPrefix @ PutUint64 (section c) @ lastHash c
                                \<mapsto> trie_root E t))))"
proof (intro conjI impI)
  assume "GetTd (db c) (header_Hash h) (big_Uint64 (Number h)) = Some d \<and> trie c = Some t"
  then show "ChtIndexerBackend_Process E c h
        = Inr (c\<lparr>lastHash := header_Hash h,
                  trie := Some (t(PutUint64 (big_Uint64 (Number h))
                           \<mapsto> rlp_EncodeToBytes E \<lparr>Hash = header_Hash h, Td = d\<rparr>))\<rparr>)"
    by (simp add: Cht_Process_step)
next
  assume a: "trie c = Some t \<and> batch_put_err (db c) = None"
  let ?d = "StoreChtRoot (fst (batch_Write (db c) (cdb c) (NewBatch(trie_root E t \<mapsto> t))))
                        (section c) (lastHash c) (trie_root E t)"
  have "ChtIndexerBackend_Commit E c = Inr (c\<lparr>db := ?d\<rparr>, None)"
    using a by (simp add: Cht_Commit_step)
  moreover have "put_err (db c) = None \<longrightarrow>
      kv ?d = (kv (db c))(chtPrefix @ PutUint64 (section c) @ lastHash c \<mapsto> trie_root E t)"
    by (simp add: kv_StoreChtRoot put_err_batch_Write kv_batch_Write)
  ultimately show "\<exists>c'. ChtIndexerBackend_Commit E c = Inr (c', None)
           \<and> db c' = ?d
           \<and> (put_err (db c) = None \<longrightarrow>
                kv (db c') = (kv (db c))(chtPrefix @ PutUint64 (section c) @ lastHash c
                                \<mapsto> trie_root E t))"
    by simp
qed

lemma ex_cht_simps: "db ex_cht = ex_db_td" "trie ex_cht = Some Map.empty" "section ex_cht = 0"
  by (simp_all add: ex_cht_def ChtIndexerBackend_Reset_def NewChtIndexer_def trie_New_def)

theorem Cht_Process_and_Commit_witness:
  "(\<exists>c2. ChtIndexerBackend_Process ex_E ex_cht ex_hdr = Inr c2
       \<and> trie c2 = Some [PutUint64 4095 \<mapsto> [7]] \<and> lastHash c2 = [7]
       \<and> (\<exists>c3. ChtIndexerBackend_Commit ex_E c2 = Inr (c3, None)
            \<and> kv (db c3) (chtPrefix @ PutUint64 0 @ [7]) = Some [1]))"
proof -
  let ?c2 = "ex_cht\<lparr>lastHash := header_Hash ex_hdr,
                  trie := Some (Map.empty(PutUint64 (big_Uint64 (Number ex_hdr))
                           \<mapsto> rlp_EncodeToBytes ex_E \<lparr>Hash = header_Hash ex_hdr, Td = 10\<rparr>))\<rparr>"
  have td: "GetTd (db ex_cht) (header_Hash ex_hdr) (big_Uint64 (Number ex_hdr)) = Some 10"
    by (simp add: ex_cht_simps ex_db_td_def GetTd_def)
  have p: "ChtIndexerBackend_Process ex_E ex_cht ex_hdr = Inr ?c2"
    using Cht_Process_and_Commit [of ex_cht ex_hdr 10 Map.empty ex_E] td by (simp add: ex_cht_simps)
  have h: "batch_put_err (db ?c2) = None" "put_err (db ?c2) = None"
    by (simp_all add: ex_cht_simps ex_db_td_def ex_db_def)
  from Cht_Process_and_Commit [of ?c2 ex_hdr 10 "Map.empty(PutUint64 (big_Uint64 (Number ex_hdr))
                           \<mapsto> rlp_EncodeToBytes ex_E \<lparr>Hash = header_Hash ex_hdr, Td = 10\<rparr>)" ex_E] h
  obtain c3 where c3: "ChtIndexerBackend_Commit ex_E ?c2 = Inr (c3, None)"
      "kv (db c3) = (kv (db ?c2))(chtPrefix @ PutUint64 (section ?c2) @ lastHash ?c2
                                \<mapsto> trie_root ex_E (Map.empty(PutUint64 (big_Uint64 (Number ex_hdr))
                           \<mapsto> rlp_EncodeToBytes ex_E \<lparr>Hash = header_Hash ex_hdr, Td = 10\<rparr>)))"
    by auto
  have "kv (db c3) (chtPrefix @ PutUint64 0 @ [7]) = Some [1]"
    unfolding c3(2) by (simp add: ex_cht_simps ex_hdr_def ex_E_def)
  with p c3(1) show ?thesis
    by (simp add: ex_hdr_def ex_E_def big_Uint64_def)
qed

section \<open>The bit-planes committed by \<open>BloomTrieIndexerBackend.Commit\<close>\<close>

lemma bloom_decomp_chunks:
  assumes "\<forall>j\<in>set js. unat j < length (sectionHeads b) \<and> bloom_chunk E b i j = Inr (ch j)"
  shows "bloom_decomp E b i js acc = Inr (acc @ concat (map ch js))"
  using assms
proof (induction js arbitrary: acc)
  case Nil
  then show ?case by simp
next
  case (Cons j js)
  from Cons.prems have j: "unat j < length (sectionHeads b)" "bloom_chunk E b i j = Inr (ch j)"
    and rest: "\<forall>j\<in>set js. unat j < length (sectionHeads b) \<and> bloom_chunk E b i j = Inr (ch j)"
    by simp_all
  from j(2) obtain data where
    "GetBloomBits (db b) i (section b * bloomTrieRatio b + j) (sectionHeads b ! unat j) = Inr data"
    "DecompressBytes E data (sint (parentSectionSize b div 8)) = Inr (ch j)"
    by (auto simp: bloom_chunk_def split: sum.splits)
  with j(1) have "bloom_decomp E b i (j # js) acc = bloom_decomp E b i js (acc @ ch j)"
    by simp
  with Cons.IH [OF rest, of "acc @ ch j"] show ?case by simp
qed

lemma unat_ratio_range:
  "j < unat (r :: u64) \<Longrightarrow> unat (of_nat j :: u64) = j"
  by (rule le_unat_uoi [of j r]) simp

lemma bloom_decomp_range:
  assumes len: "length (sectionHeads b) = unat (bloomTrieRatio b)"
    and ok: "\<forall>j<unat (bloomTrieRatio b). bloom_chunk E b i (of_nat j) = Inr (ch j)"
  shows "bloom_decomp E b i (ratio_range b) []
       = Inr (concat (map ch [0..<unat (bloomTrieRatio b)]))"
proof -
  let ?ch = "\<lambda>j :: u64. ch (unat j)"
  have "\<forall>j\<in>set (ratio_range b). unat j < length (sectionHeads b) \<and> bloom_chunk E b i j = Inr (?ch j)"
    using len ok by (auto simp: ratio_range_def unat_ratio_range)
  then have "bloom_decomp E b i (ratio_range b) [] = Inr ([] @ concat (map ?ch (ratio_range b)))"
    by (rule bloom_decomp_chunks)
  moreover have "map ?ch (ratio_range b) = map ch [0..<unat (bloomTrieRatio b)]"
    by (simp add: ratio_range_def unat_ratio_range)
  ultimately show ?thesis by simp
qed


lemma bloom_planes_Cons:
  assumes "bloom_decomp E b i (ratio_range b) [] = Inr decomp"
  shows "bloom_planes E b (i # is) (Some t, cs, ds)
       = bloom_planes E b is
           (Some (t(bloomBitKey i (section b) := plane_entry E decomp)),
            cs + of_nat (length (CompressBytes E decomp)), ds + of_nat (length decomp))"
  using assms
  by (simp add: Let_def plane_entry_def trie_Update_def trie_Delete_def)

lemma bloom_planes_result:
  assumes "bloom_planes E b is (Some t, cs, ds) = Inr (t', cs', ds')"
    and "distinct is" and "\<forall>i\<in>set is. i < 65536"
  shows "\<exists>tr. t' = Some tr
      \<and> (\<forall>i\<in>set is. \<exists>decomp. bloom_decomp E b i (ratio_range b) [] = Inr decomp
             \<and> tr (bloomBitKey i (section b)) = plane_entry E decomp)
      \<and> (\<forall>k. k \<notin> (\<lambda>i. bloomBitKey i (section b)) ` set is \<longrightarrow> tr k = t k)"
  using assms
proof (induction "is" arbitrary: t cs ds)
  case Nil
  then show ?case by auto
next
  case (Cons i "is")
  from Cons.prems(1) obtain decomp where
    d: "bloom_decomp E b i (ratio_range b) [] = Inr decomp"
    by (auto simp: Let_def split: sum.splits)
  let ?t1 = "t(bloomBitKey i (section b) := plane_entry E decomp)"
  from Cons.prems(1) bloom_planes_Cons [OF d]
  have run: "bloom_planes E b is
           (Some ?t1, cs + of_nat (length (CompressBytes E decomp)), ds + of_nat (length decomp))
         = Inr (t', cs', ds')"
    by simp
  from Cons.prems have dist: "distinct is" and bnd: "\<forall>i\<in>set is. i < 65536"
    and i: "i \<notin> set is" "i < 65536" by simp_all
  from Cons.IH [OF run dist bnd] obtain tr where tr: "t' = Some tr"
    and planes: "\<forall>i\<in>set is. \<exists>decomp. bloom_decomp E b i (ratio_range b) [] = Inr decomp
             \<and> tr (bloomBitKey i (section b)) = plane_entry E decomp"
    and others: "\<forall>k. k \<notin> (\<lambda>i. bloomBitKey i (section b)) ` set is \<longrightarrow> tr k = ?t1 k"
    by blast
  have fresh: "bloomBitKey i (section b) \<notin> (\<lambda>i. bloomBitKey i (section b)) ` set is"
  proof
    assume "bloomBitKey i (section b) \<in> (\<lambda>i. bloomBitKey i (section b)) ` set is"
    then obtain i' where i': "i' \<in> set is" "bloomBitKey i (section b) = bloomBitKey i' (section b)"
      by blast
    with bnd i(2) have "i = i'" using bloomBitKey_inj by blast
    with i' i(1) show False by simp
  qed
  with others have here: "tr (bloomBitKey i (section b)) = plane_entry E decomp"
    by simp
  have "\<forall>k. k \<notin> (\<lambda>i. bloomBitKey i (section b)) ` set (i # is) \<longrightarrow> tr k = t k"
    using others by auto
  with tr planes d here show ?case by auto
qed

lemma bloom_planes_total:
  assumes "\<forall>i\<in>set is. \<exists>d. bloom_decomp E b i (ratio_range b) [] = Inr d"
  shows "\<exists>st. bloom_planes E b is (Some t, cs, ds) = Inr st"
  using assms
proof (induction "is" arbitrary: t cs ds)
  case Nil
  then show ?case by simp
next
  case (Cons i "is")
  then obtain d where d: "bloom_decomp E b i (ratio_range b) [] = Inr d" by auto
  from Cons.prems have "\<forall>i\<in>set is. \<exists>d. bloom_decomp E b i (ratio_range b) [] = Inr d" by simp
  from Cons.IH [OF this] show ?case
    unfolding bloom_planes_Cons [OF d] by blast
qed


lemma BloomBitLength_range:
  "distinct [0..<BloomBitLength]" "\<forall>i\<in>set [0..<BloomBitLength]. i < 65536"
  by (simp_all add: BloomBitLength_def)


lemma Bloom_Commit_after_loop:
  assumes "bloom_planes E b [0..<BloomBitLength] (trie b, 0, 0) = Inr (Some t', cs, ds)"
    and "unat (bloomTrieRatio b - 1) < length (sectionHeads b)"
  shows "\<exists>b'. BloomTrieIndexerBackend_Commit E b = Inr (b', batch_put_err (db b))
           \<and> trie b' = Some t'"
  using assms
  by (cases "batch_put_err (db b)")
     (simp_all add: BloomTrieIndexerBackend_Commit_def trie_CommitTo_def Let_def split: prod.splits)

lemma ratio_last_slot:
  assumes "length (sectionHeads b) = unat (bloomTrieRatio b)" "0 < bloomTrieRatio b"
  shows "unat (bloomTrieRatio b - 1) < length (sectionHeads b)"
proof -
  have "unat (bloomTrieRatio b - 1) < unat (bloomTrieRatio b)"
    using assms(2) by (simp add: word_less_nat_alt unat_minus_one word_neq_0_conv)
  with assms(1) show ?thesis by simp
qed

text \<open>When every chunk can be fetched and decompressed, \<open>Commit\<close> returns, with the
  error of the trie's \<open>CommitTo\<close>.\<close>

lemma Bloom_Commit_returns:
  assumes len: "length (sectionHeads b) = unat (bloomTrieRatio b)"
    and pos: "0 < bloomTrieRatio b"
    and tr: "trie b = Some t"
    and ok: "\<forall>i<BloomBitLength. \<forall>j<unat (bloomTrieRatio b).
               bloom_chunk E b i (of_nat j) = Inr (ch i j)"
  shows "\<exists>b' t' cs ds.
      bloom_planes E b [0..<BloomBitLength] (Some t, 0, 0) = Inr (Some t', cs, ds)
      \<and> BloomTrieIndexerBackend_Commit E b = Inr (b', batch_put_err (db b))
      \<and> trie b' = Some t'"
proof -
  have "bloom_decomp E b i (ratio_range b) []
       = Inr (concat (map (ch i) [0..<unat (bloomTrieRatio b)]))" if "i < BloomBitLength" for i
    using len ok that by (intro bloom_decomp_range) simp_all
  then have "\<forall>i\<in>set [0..<BloomBitLength]. \<exists>d. bloom_decomp E b i (ratio_range b) [] = Inr d"
    by simp
  from bloom_planes_total [OF this, of t 0 0] obtain t1 cs ds where
    run: "bloom_planes E b [0..<BloomBitLength] (Some t, 0, 0) = Inr (t1, cs, ds)"
    by (metis prod_cases3)
  from bloom_planes_result [OF run BloomBitLength_range(1,2)] obtain t' where t': "t1 = Some t'"
    by blast
  from run tr t' Bloom_Commit_after_loop [of E b t' cs ds] ratio_last_slot [OF len pos]
  show ?thesis by auto
qed


text \<open>
  C1. Let every slot of \<open>sectionHeads\<close> exist (\<open>bloomTrieRatio\<close> of them, at least one), a
  trie be open, and every chunk \<open>ch i j = DecompressBytes(GetBloomBits(i, section *
  bloomTrieRatio + j, sectionHeads[j]), parentSectionSize / 8)\<close> be available. Then
  \<open>BloomTrieIndexerBackend.Commit\<close> returns, and for each bit index \<open>i\<close> below 2048 the
  trie holds, under the 10-byte key \<open>beU16(i) \<parallel> beU64(section)\<close>, the compression of the
  concatenation of the chunks in increasing order \<open>j = 0 .. bloomTrieRatio - 1\<close>: reading
  the key gives that compression, an empty compression being the absence of the key.
\<close>

theorem Bloom_Commit_planes:
  assumes len: "length (sectionHeads b) = unat (bloomTrieRatio b)"
    and pos: "0 < bloomTrieRatio b"
    and tr: "trie b = Some t"
    and ok: "\<forall>i<BloomBitLength. \<forall>j<unat (bloomTrieRatio b).
               bloom_chunk E b i (of_nat j) = Inr (ch i j)"
  shows "\<exists>b' err t'. BloomTrieIndexerBackend_Commit E b = Inr (b', err) \<and> trie b' = Some t'
      \<and> (\<forall>i<BloomBitLength.
            t' (bloomBitKey i (section b))
              = plane_entry E (concat (map (ch i) [0..<unat (bloomTrieRatio b)]))
          \<and> (case t' (bloomBitKey i (section b)) of None \<Rightarrow> [] | Some v \<Rightarrow> v)
              = CompressBytes E (concat (map (ch i) [0..<unat (bloomTrieRatio b)]))
          \<and> length (bloomBitKey i (section b)) = 10)"
proof -
  have decomp: "bloom_decomp E b i (ratio_range b) []
       = Inr (concat (map (ch i) [0..<unat (bloomTrieRatio b)]))" if "i < BloomBitLength" for i
    using len ok that by (intro bloom_decomp_range) simp_all
  from Bloom_Commit_returns [OF len pos tr ok] obtain b' t' cs ds where
    run: "bloom_planes E b [0..<BloomBitLength] (Some t, 0, 0) = Inr (Some t', cs, ds)"
    and ret: "BloomTrieIndexerBackend_Commit E b = Inr (b', batch_put_err (db b))"
      "trie b' = Some t'"
    by blast
  from bloom_planes_result [OF run BloomBitLength_range(1,2)]
  have planes: "\<forall>i\<in>set [0..<BloomBitLength]. \<exists>decomp.
        bloom_decomp E b i (ratio_range b) [] = Inr decomp
        \<and> t' (bloomBitKey i (section b)) = plane_entry E decomp"
    by simp
  have entry: "t' (bloomBitKey i (section b))
      = plane_entry E (concat (map (ch i) [0..<unat (bloomTrieRatio b)]))" if "i < BloomBitLength" for i
  proof -
    from that have "i \<in> set [0..<BloomBitLength]" by simp
    with planes obtain decomp where "bloom_decomp E b i (ratio_range b) [] = Inr decomp"
      "t' (bloomBitKey i (section b)) = plane_entry E decomp" by blast
    with decomp [OF that] show ?thesis by simp
  qed
  have "(case plane_entry E d of None \<Rightarrow> [] | Some v \<Rightarrow> v) = CompressBytes E d" for d
    by (simp add: plane_entry_def)
  moreover have "length (bloomBitKey i s) = 10" for i s
    by (simp add: bloomBitKey_def length_PutUint16 length_PutUint64)
  ultimately show ?thesis using ret entry by auto
qed

lemma ex_bloom_simps:
  "db ex_bloom = ex_db" "trie ex_bloom = Some Map.empty" "section ex_bloom = 0"
  "bloomTrieRatio ex_bloom = 8" "length (sectionHeads ex_bloom) = 8"
  by (simp_all add: ex_bloom_def ex_bloom0_def BloomTrieIndexerBackend_Reset_def
      NewBloomTrieIndexer_def trie_New_def BloomTrieFrequency_def ethBloomBitsSection_def Let_def)


text \<open>The heads of the eight parent sub-sections of section 1, recorded by \<open>Process\<close>,
  and the chunks the bloom-bits store gives for them.\<close>

lemma ex_bloom_reset_simps:
  "db ex_bloom_reset = ex_db_bits" "trie ex_bloom_reset = Some Map.empty"
  "section ex_bloom_reset = 1" "parentSectionSize ex_bloom_reset = 4096"
  "bloomTrieRatio ex_bloom_reset = 8"
  "sectionHeads ex_bloom_reset = replicate 8 zero_hash"
  by (simp_all add: ex_bloom_reset_def BloomTrieIndexerBackend_Reset_def GetBloomTrieRoot_def
      db_Get_def BytesToHash_Nil ex_db_bits_def ex_db_def
      NewBloomTrieIndexer_def trie_New_def BloomTrieFrequency_def ethBloomBitsSection_def Let_def)

lemma eight_slots:
  "(replicate 8 z)[0 := a0, Suc 0 := a1, 2 := a2, 3 := a3, 4 := a4, 5 := a5, 6 := a6, 7 := a7]
     = [a0, a1, a2, a3, a4, a5, a6, a7]"
  by (simp add: eval_nat_numeral)

lemma ex_bloom_recorded: "Bloom_Process_all ex_bloom_reset ex_hdrs = Inr ex_bloom_rec"
  by (simp add: ex_hdrs_def ex_bloom_rec_def BloomTrieIndexerBackend_Process_def
      ex_bloom_reset_simps big_Uint64_def BloomTrieFrequency_def Let_def eight_slots)


lemma ex_bloom_rec_simps:
  "db ex_bloom_rec = ex_db_bits" "trie ex_bloom_rec = Some Map.empty"
  "section ex_bloom_rec = 1" "parentSectionSize ex_bloom_rec = 4096"
  "bloomTrieRatio ex_bloom_rec = 8"
  "sectionHeads ex_bloom_rec = [[10], [11], [12], [13], [14], [15], [16], [17]]"
  by (simp_all add: ex_bloom_rec_def ex_bloom_reset_simps)

lemma ex_bloom_rec_chunk:
  assumes "j < 8"
  shows "bloom_chunk ex_E1 ex_bloom_rec i (of_nat j)
       = Inr [of_nat i, of_nat (8 + j), of_nat (10 + j)]"
proof -
  from assms have "j = 0 \<or> j = 1 \<or> j = 2 \<or> j = 3 \<or> j = 4 \<or> j = 5 \<or> j = 6 \<or> j = 7"
    by arith
  then show ?thesis
    by (elim disjE)
       (simp_all add: bloom_chunk_def GetBloomBits_def ex_bloom_rec_simps ex_db_bits_def
          ex_E1_def ex_E_def)
qed

theorem Bloom_Commit_planes_witness:
  "Bloom_Process_all ex_bloom_reset ex_hdrs = Inr ex_bloom_rec
   \<and> (\<exists>b' err t'. BloomTrieIndexerBackend_Commit ex_E1 ex_bloom_rec = Inr (b', err)
         \<and> trie b' = Some t'
         \<and> t' (bloomBitKey 5 1)
             = Some [1, 5, 8, 10, 5, 9, 11, 5, 10, 12, 5, 11, 13, 5, 12, 14, 5, 13, 15,
                     5, 14, 16, 5, 15, 17])"
proof -
  let ?ch = "\<lambda>i j. [of_nat i, of_nat (8 + j), of_nat (10 + j)] :: bytes"
  have "length (sectionHeads ex_bloom_rec) = unat (bloomTrieRatio ex_bloom_rec)"
    "0 < bloomTrieRatio ex_bloom_rec" "trie ex_bloom_rec = Some Map.empty"
    "\<forall>i<BloomBitLength. \<forall>j<unat (bloomTrieRatio ex_bloom_rec).
       bloom_chunk ex_E1 ex_bloom_rec i (of_nat j) = Inr (?ch i j)"
    by (simp_all add: ex_bloom_rec_simps ex_bloom_rec_chunk)
  from Bloom_Commit_planes [OF this] obtain b' err t' where
    r: "BloomTrieIndexerBackend_Commit ex_E1 ex_bloom_rec = Inr (b', err)" "trie b' = Some t'"
    and p: "\<forall>i<BloomBitLength. t' (bloomBitKey i (section ex_bloom_rec))
              = plane_entry ex_E1 (concat (map (?ch i) [0..<unat (bloomTrieRatio ex_bloom_rec)]))"
    by blast
  have "(5 :: nat) < BloomBitLength" by (simp add: BloomBitLength_def)
  with p have "t' (bloomBitKey 5 (section ex_bloom_rec))
      = plane_entry ex_E1 (concat (map (?ch 5) [0..<unat (bloomTrieRatio ex_bloom_rec)]))"
    by blast
  then have "t' (bloomBitKey 5 1)
      = Some [1, 5, 8, 10, 5, 9, 11, 5, 10, 12, 5, 11, 13, 5, 12, 14, 5, 13, 15,
              5, 14, 16, 5, 15, 17]"
    by (simp add: ex_bloom_rec_simps plane_entry_def ex_E1_def ex_E_def upt_conv_Cons)
  with r ex_bloom_recorded show ?thesis by blast
qed




section \<open>Which failures \<open>Reset\<close> and \<open>Commit\<close> return\<close>

text \<open>
  C6, counterexample. On a store whose batch \<open>Write\<close> and whose \<open>Put\<close> both fail,
  \<open>ChtIndexerBackend.Commit\<close> returns no error, and the backend, store included, is as
  before. The failure of the two writes does not reach the caller.
\<close>

theorem Commit_swallows_write_failure:
  "snd (batch_Write (db ex_cht_broken) (cdb ex_cht_broken)
          (NewBatch(trie_root ex_E Map.empty \<mapsto> Map.empty))) = Some ErrStoreWrite
   \<and> snd (db_Put (db ex_cht_broken)
          (chtPrefix @ PutUint64 (section ex_cht_broken) @ lastHash ex_cht_broken)
          (trie_root ex_E Map.empty)) = Some ErrStoreWrite
   \<and> ChtIndexerBackend_Commit ex_E ex_cht_broken = Inr (ex_cht_broken, None)"
  by (simp add: ChtIndexerBackend_Commit_def ex_cht_broken_def NewChtIndexer_def ex_db_broken_def
      trie_CommitTo_def batch_Write_def StoreChtRoot_def db_Put_def Let_def)

lemma bloom_decomp_fails:
  assumes "\<forall>j'\<in>set js1. unat j' < length (sectionHeads b) \<and> (\<exists>c. bloom_chunk E b i j' = Inr c)"
    and "unat j < length (sectionHeads b)" and "bloom_chunk E b i j = Inl e"
  shows "bloom_decomp E b i (js1 @ j # js2) acc = Inl (Failed e)"
  using assms
proof (induction js1 arbitrary: acc)
  case Nil
  then show ?case
    by (auto simp: bloom_chunk_def split: sum.splits)
next
  case (Cons j' js1)
  from Cons.prems(1) obtain c where j': "unat j' < length (sectionHeads b)"
    "bloom_chunk E b i j' = Inr c" by auto
  then obtain data where
    "GetBloomBits (db b) i (section b * bloomTrieRatio b + j') (sectionHeads b ! unat j') = Inr data"
    "DecompressBytes E data (sint (parentSectionSize b div 8)) = Inr c"
    by (auto simp: bloom_chunk_def split: sum.splits)
  with j'(1) have "bloom_decomp E b i ((j' # js1) @ j # js2) acc
      = bloom_decomp E b i (js1 @ j # js2) (acc @ c)"
    by simp
  moreover from Cons.prems have "bloom_decomp E b i (js1 @ j # js2) (acc @ c) = Inl (Failed e)"
    by (intro Cons.IH) simp_all
  ultimately show ?case by simp
qed

lemma upt_split:
  assumes "j < n"
  shows "[0..<n] = [0..<j] @ j # [Suc j..<n]"
proof -
  have "[0..<j + (n - j)] = [0..<j] @ [j..<j + (n - j)]"
    by (rule upt_add_eq_append) simp
  moreover have "j + (n - j) = n" using assms by simp
  ultimately have "[0..<n] = [0..<j] @ [j..<n]" by simp
  with upt_conv_Cons [OF assms] show ?thesis by simp
qed

lemma bloom_decomp_first_failure:
  assumes len: "length (sectionHeads b) = unat (bloomTrieRatio b)"
    and j: "j < unat (bloomTrieRatio b)"
    and before: "\<forall>j'<j. \<exists>c. bloom_chunk E b i (of_nat j') = Inr c"
    and fail: "bloom_chunk E b i (of_nat j) = Inl e"
  shows "bloom_decomp E b i (ratio_range b) [] = Inl (Failed e)"
proof -
  have split: "ratio_range b
      = map of_nat [0..<j] @ of_nat j # map of_nat [Suc j..<unat (bloomTrieRatio b)]"
    unfolding ratio_range_def using upt_split [OF j] by simp
  have u: "unat (of_nat k :: u64) = k" if "k \<le> j" for k
    using that j by (intro unat_ratio_range [of k "bloomTrieRatio b"]) simp
  have "\<forall>j'\<in>set (map of_nat [0..<j]). unat j' < length (sectionHeads b)
      \<and> (\<exists>c. bloom_chunk E b i j' = Inr c)"
    using before j len u by auto
  moreover have "unat (of_nat j :: u64) < length (sectionHeads b)"
    using j len u by simp
  ultimately show ?thesis
    unfolding split using fail by (rule bloom_decomp_fails)
qed

lemma bloom_planes_fails:
  assumes "\<forall>i'\<in>set is1. \<exists>d. bloom_decomp E b i' (ratio_range b) [] = Inr d"
    and "bloom_decomp E b i (ratio_range b) [] = Inl f"
  shows "\<exists>st. bloom_planes E b (is1 @ i # is2) (Some t, cs, ds) = Inl (f, st)"
  using assms
proof (induction is1 arbitrary: t cs ds)
  case Nil
  then show ?case by (simp add: Let_def)
next
  case (Cons i' is1)
  then obtain d where d: "bloom_decomp E b i' (ratio_range b) [] = Inr d" by auto
  from Cons.prems have "\<forall>i'\<in>set is1. \<exists>d. bloom_decomp E b i' (ratio_range b) [] = Inr d" by simp
  from Cons.IH [OF this Cons.prems(2)] show ?case
    unfolding append_Cons bloom_planes_Cons [OF d] by blast
qed

lemma Bloom_Commit_loop_error:
  assumes "bloom_planes E b [0..<BloomBitLength] (trie b, 0, 0) = Inl (Failed e, st)"
  shows "\<exists>b'. BloomTrieIndexerBackend_Commit E b = Inr (b', Some e)"
  using assms by (cases st) (simp add: BloomTrieIndexerBackend_Commit_def)

lemma Bloom_Commit_first_failure:
  assumes tr: "trie b = Some t"
    and len: "length (sectionHeads b) = unat (bloomTrieRatio b)"
    and i: "i < BloomBitLength" and j: "j < unat (bloomTrieRatio b)"
    and planes: "\<forall>i'<i. \<forall>j'<unat (bloomTrieRatio b). \<exists>c. bloom_chunk E b i' (of_nat j') = Inr c"
    and before: "\<forall>j'<j. \<exists>c. bloom_chunk E b i (of_nat j') = Inr c"
    and fail: "bloom_chunk E b i (of_nat j) = Inl e"
  shows "\<exists>b'. BloomTrieIndexerBackend_Commit E b = Inr (b', Some e)"
proof -
  have "\<exists>d. bloom_decomp E b i' (ratio_range b) [] = Inr d" if "i' < i" for i'
  proof -
    from planes that have "\<forall>j'<unat (bloomTrieRatio b). \<exists>c. bloom_chunk E b i' (of_nat j') = Inr c"
      by blast
    then obtain ch where "\<forall>j'<unat (bloomTrieRatio b). bloom_chunk E b i' (of_nat j') = Inr (ch j')"
      by metis
    from bloom_decomp_range [OF len this] show ?thesis by blast
  qed
  then have ok: "\<forall>i'\<in>set [0..<i]. \<exists>d. bloom_decomp E b i' (ratio_range b) [] = Inr d"
    by simp
  have f: "bloom_decomp E b i (ratio_range b) [] = Inl (Failed e)"
    using len j before fail by (rule bloom_decomp_first_failure)
  from bloom_planes_fails [OF ok f, of "[Suc i..<BloomBitLength]" t 0 0] upt_split [OF i] tr
  obtain st where "bloom_planes E b [0..<BloomBitLength] (trie b, 0, 0) = Inl (Failed e, st)"
    by auto
  then show ?thesis by (rule Bloom_Commit_loop_error)
qed


lemma Cht_Commit_put_error:
  assumes "trie c = Some t" "batch_put_err (db c) = Some e"
  shows "ChtIndexerBackend_Commit E c = Inr (c, Some e)"
  using assms by (simp add: ChtIndexerBackend_Commit_def trie_CommitTo_def)

text \<open>
  C6, as the code has it. These failures are returned to the caller as the error of the
  call: a trie-open failure in \<open>Reset\<close> of either backend; in
  \<open>BloomTrieIndexerBackend.Commit\<close>, the first failure to fetch or to decompress a
  parent bit-plane (\<open>bloom_chunk\<close> is \<open>Inl\<close> for both), at bit \<open>i\<close> and parent
  sub-section \<open>j\<close>; and in \<open>Commit\<close> of either backend, a failure of the trie's
  \<open>CommitTo\<close> into the batch.
\<close>

theorem recoverable_failures_returned:
  "(trie_New (if 0 < sec then GetChtRoot (db c) (sec - 1) h else zero_hash) (db c) (cdb c) = Inl e
      \<longrightarrow> snd (ChtIndexerBackend_Reset c sec h) = Some e)
   \<and> (trie_New (if 0 < sec then GetBloomTrieRoot (db b) (sec - 1) h else zero_hash) (db b) (cdb b)
        = Inl e
      \<longrightarrow> snd (BloomTrieIndexerBackend_Reset b sec h) = Some e)
   \<and> (trie b = Some t \<and> length (sectionHeads b) = unat (bloomTrieRatio b)
        \<and> i < BloomBitLength \<and> j < unat (bloomTrieRatio b)
        \<and> (\<forall>i'<i. \<forall>j'<unat (bloomTrieRatio b). \<exists>x. bloom_chunk E b i' (of_nat j') = Inr x)
        \<and> (\<forall>j'<j. \<exists>x. bloom_chunk E b i (of_nat j') = Inr x)
        \<and> bloom_chunk E b i (of_nat j) = Inl e
      \<longrightarrow> (\<exists>b'. BloomTrieIndexerBackend_Commit E b = Inr (b', Some e)))
   \<and> (trie c = Some tc \<and> batch_put_err (db c) = Some e
      \<longrightarrow> ChtIndexerBackend_Commit E c = Inr (c, Some e))
   \<and> (trie b = Some t \<and> length (sectionHeads b) = unat (bloomTrieRatio b)
        \<and> 0 < bloomTrieRatio b
        \<and> (\<forall>i<BloomBitLength. \<forall>j<unat (bloomTrieRatio b). bloom_chunk E b i (of_nat j) = Inr (ch i j))
        \<and> batch_put_err (db b) = Some e
      \<longrightarrow> (\<exists>b'. BloomTrieIndexerBackend_Commit E b = Inr (b', Some e)))"
proof (intro conjI impI)
  assume "trie_New (if 0 < sec then GetChtRoot (db c) (sec - 1) h else zero_hash) (db c) (cdb c)
      = Inl e"
  then show "snd (ChtIndexerBackend_Reset c sec h) = Some e"
    by (simp add: ChtIndexerBackend_Reset_def)
next
  assume "trie_New (if 0 < sec then GetBloomTrieRoot (db b) (sec - 1) h else zero_hash) (db b) (cdb b)
      = Inl e"
  then show "snd (BloomTrieIndexerBackend_Reset b sec h) = Some e"
    by (simp add: BloomTrieIndexerBackend_Reset_def)
next
  assume "trie b = Some t \<and> length (sectionHeads b) = unat (bloomTrieRatio b)
        \<and> i < BloomBitLength \<and> j < unat (bloomTrieRatio b)
        \<and> (\<forall>i'<i. \<forall>j'<unat (bloomTrieRatio b). \<exists>x. bloom_chunk E b i' (of_nat j') = Inr x)
        \<and> (\<forall>j'<j. \<exists>x. bloom_chunk E b i (of_nat j') = Inr x)
        \<and> bloom_chunk E b i (of_nat j) = Inl e"
  then show "\<exists>b'. BloomTrieIndexerBackend_Commit E b = Inr (b', Some e)"
    using Bloom_Commit_first_failure [of b t i j E e] by blast
next
  assume "trie c = Some tc \<and> batch_put_err (db c) = Some e"
  then show "ChtIndexerBackend_Commit E c = Inr (c, Some e)"
    by (simp add: Cht_Commit_put_error)
next
  assume a: "trie b = Some t \<and> length (sectionHeads b) = unat (bloomTrieRatio b)
        \<and> 0 < bloomTrieRatio b
        \<and> (\<forall>i<BloomBitLength. \<forall>j<unat (bloomTrieRatio b). bloom_chunk E b i (of_nat j) = Inr (ch i j))
        \<and> batch_put_err (db b) = Some e"
  then have h: "length (sectionHeads b) = unat (bloomTrieRatio b)" "0 < bloomTrieRatio b"
    "trie b = Some t"
    "\<forall>i<BloomBitLength. \<forall>j<unat (bloomTrieRatio b). bloom_chunk E b i (of_nat j) = Inr (ch i j)"
    by simp_all
  have "\<exists>b' t' cs ds.
      bloom_planes E b [0..<BloomBitLength] (Some t, 0, 0) = Inr (Some t', cs, ds)
      \<and> BloomTrieIndexerBackend_Commit E b = Inr (b', batch_put_err (db b))
      \<and> trie b' = Some t'"
    using h by (rule Bloom_Commit_returns)
  with a show "\<exists>b'. BloomTrieIndexerBackend_Commit E b = Inr (b', Some e)"
    by auto
qed

lemma ex_broken_simps:
  "db ex_cht_broken = ex_db_broken" "cdb ex_cht_broken = ChtTablePrefix"
  "trie ex_cht_broken = Some Map.empty"
  "db ex_bloom_broken = ex_db_broken" "cdb ex_bloom_broken = BloomTrieTablePrefix"
  "trie ex_bloom_broken = Some Map.empty" "bloomTrieRatio ex_bloom_broken = 8"
  "length (sectionHeads ex_bloom_broken) = 8"
  "trie ex_cht_noput = Some Map.empty" "batch_put_err (db ex_cht_noput) = Some ErrStoreWrite"
  "db ex_bloom_noput = ex_db\<lparr>batch_put_err := Some ErrStoreWrite\<rparr>"
  "trie ex_bloom_noput = Some Map.empty" "bloomTrieRatio ex_bloom_noput = 8"
  "length (sectionHeads ex_bloom_noput) = 8"
  by (simp_all add: ex_cht_broken_def ex_bloom_broken_def ex_cht_noput_def ex_bloom_noput_def
      NewChtIndexer_def NewBloomTrieIndexer_def BloomTrieFrequency_def ethBloomBitsSection_def
      ex_bloom_simps Let_def)

lemma ex_broken_root: "BytesToHash [1] \<noteq> zero_hash"
proof -
  have "last (BytesToHash [1]) = 1"
    by (simp add: BytesToHash_def HashLength_def)
  moreover have "last zero_hash = 0"
    by (simp add: zero_hash_def HashLength_def)
  ultimately show ?thesis by auto
qed

theorem recoverable_failures_returned_witness:
  "snd (ChtIndexerBackend_Reset ex_cht_broken 1 [7]) = Some (MissingNodeError (BytesToHash [1]))
   \<and> snd (BloomTrieIndexerBackend_Reset ex_bloom_broken 1 [7])
       = Some (MissingNodeError (BytesToHash [1]))
   \<and> (\<exists>b'. BloomTrieIndexerBackend_Commit ex_E ex_bloom_broken = Inr (b', Some ErrBloomBits))
   \<and> ChtIndexerBackend_Commit ex_E ex_cht_noput = Inr (ex_cht_noput, Some ErrStoreWrite)
   \<and> (\<exists>b'. BloomTrieIndexerBackend_Commit ex_E ex_bloom_noput = Inr (b', Some ErrStoreWrite))"
proof -
  have 1: "trie_New (if 0 < (1 :: u64) then GetChtRoot (db ex_cht_broken) (1 - 1) [7] else zero_hash)
      (db ex_cht_broken) (cdb ex_cht_broken) = Inl (MissingNodeError (BytesToHash [1]))"
    by (simp add: ex_broken_simps trie_New_def GetChtRoot_def db_Get_def ex_db_broken_def
        ex_broken_root)
  have 2: "trie_New (if 0 < (1 :: u64) then GetBloomTrieRoot (db ex_bloom_broken) (1 - 1) [7]
        else zero_hash)
      (db ex_bloom_broken) (cdb ex_bloom_broken) = Inl (MissingNodeError (BytesToHash [1]))"
    by (simp add: ex_broken_simps trie_New_def GetBloomTrieRoot_def db_Get_def ex_db_broken_def
        ex_broken_root)
  have 3: "trie ex_bloom_broken = Some Map.empty
      \<and> length (sectionHeads ex_bloom_broken) = unat (bloomTrieRatio ex_bloom_broken)
      \<and> 0 < BloomBitLength \<and> 0 < unat (bloomTrieRatio ex_bloom_broken)
      \<and> (\<forall>i'<0. \<forall>j'<unat (bloomTrieRatio ex_bloom_broken).
            \<exists>x. bloom_chunk ex_E ex_bloom_broken i' (of_nat j') = Inr x)
      \<and> (\<forall>j'<0. \<exists>x. bloom_chunk ex_E ex_bloom_broken 0 (of_nat j') = Inr x)
      \<and> bloom_chunk ex_E ex_bloom_broken 0 (of_nat 0) = Inl ErrBloomBits"
    by (simp add: ex_broken_simps BloomBitLength_def bloom_chunk_def GetBloomBits_def
        ex_db_broken_def)
  have 4: "trie ex_cht_noput = Some Map.empty
      \<and> batch_put_err (db ex_cht_noput) = Some ErrStoreWrite"
    by (simp add: ex_broken_simps)
  have 5: "trie ex_bloom_noput = Some Map.empty
      \<and> length (sectionHeads ex_bloom_noput) = unat (bloomTrieRatio ex_bloom_noput)
      \<and> 0 < bloomTrieRatio ex_bloom_noput
      \<and> (\<forall>i<BloomBitLength. \<forall>j<unat (bloomTrieRatio ex_bloom_noput).
            bloom_chunk ex_E ex_bloom_noput i (of_nat j) = Inr ((\<lambda>i j. []) i j))
      \<and> batch_put_err (db ex_bloom_noput) = Some ErrStoreWrite"
    by (simp add: ex_broken_simps bloom_chunk_def GetBloomBits_def ex_db_def ex_E_def)
  from recoverable_failures_returned
    [of 1 ex_cht_broken "[7]" "MissingNodeError (BytesToHash [1])" ex_bloom_broken] 1 2
  have a: "snd (ChtIndexerBackend_Reset ex_cht_broken 1 [7])
        = Some (MissingNodeError (BytesToHash [1]))"
    "snd (BloomTrieIndexerBackend_Reset ex_bloom_broken 1 [7])
        = Some (MissingNodeError (BytesToHash [1]))"
    by blast+
  from recoverable_failures_returned
    [of _ _ _ ErrBloomBits ex_bloom_broken Map.empty 0 0 ex_E] 3
  have b: "\<exists>b'. BloomTrieIndexerBackend_Commit ex_E ex_bloom_broken = Inr (b', Some ErrBloomBits)"
    by blast
  from recoverable_failures_returned
    [of _ ex_cht_noput _ ErrStoreWrite ex_bloom_noput Map.empty _ _ ex_E Map.empty "\<lambda>i j. []"] 4 5
  have c: "ChtIndexerBackend_Commit ex_E ex_cht_noput = Inr (ex_cht_noput, Some ErrStoreWrite)"
    "\<exists>b'. BloomTrieIndexerBackend_Commit ex_E ex_bloom_noput = Inr (b', Some ErrStoreWrite)"
    by blast+
  from a b c show ?thesis by blast
qed

section \<open>Running the CHT cycle twice\<close>

lemma Cht_inserts_map_add:
  "Cht_inserts E d hs t = t ++ Cht_inserts E d hs Map.empty"
proof (induction hs arbitrary: t)
  case Nil
  then show ?case by simp
next
  case (Cons h hs)
  show ?case
  proof (cases "GetTd d (header_Hash h) (big_Uint64 (Number h))")
    case None
    then show ?thesis using Cons.IH [of t] by simp
  next
    case (Some x)
    let ?k = "PutUint64 (big_Uint64 (Number h))"
    let ?v = "rlp_EncodeToBytes E \<lparr>Hash = header_Hash h, Td = x\<rparr>"
    have "Cht_inserts E d (h # hs) t = Cht_inserts E d hs (t(?k \<mapsto> ?v))"
      using Some by simp
    also have "\<dots> = t(?k \<mapsto> ?v) ++ Cht_inserts E d hs Map.empty"
      by (rule Cons.IH)
    finally have 1: "Cht_inserts E d (h # hs) t = t(?k \<mapsto> ?v) ++ Cht_inserts E d hs Map.empty" .
    have "Cht_inserts E d (h # hs) Map.empty = Cht_inserts E d hs [?k \<mapsto> ?v]"
      using Some by simp
    also have "\<dots> = [?k \<mapsto> ?v] ++ Cht_inserts E d hs Map.empty"
      by (rule Cons.IH)
    finally have 2: "Cht_inserts E d (h # hs) Map.empty
        = [?k \<mapsto> ?v] ++ Cht_inserts E d hs Map.empty" .
    have 3: "t ++ ([?k \<mapsto> ?v] ++ Cht_inserts E d hs Map.empty)
        = t(?k \<mapsto> ?v) ++ Cht_inserts E d hs Map.empty"
      by simp
    have "Cht_inserts E d (h # hs) t = t(?k \<mapsto> ?v) ++ Cht_inserts E d hs Map.empty"
      by (rule 1)
    also have "\<dots> = t ++ ([?k \<mapsto> ?v] ++ Cht_inserts E d hs Map.empty)"
      by (rule 3 [symmetric])
    also have "\<dots> = t ++ Cht_inserts E d (h # hs) Map.empty"
      by (simp only: 2)
    finally show ?thesis .
  qed
qed

lemma map_add_twice: "m ++ bt ++ bt = m ++ bt"
  by (rule ext) (simp add: map_add_def split: option.split)

lemma Cht_inserts_idem:
  "Cht_inserts E d hs (Cht_inserts E d hs t) = Cht_inserts E d hs t"
proof -
  have "Cht_inserts E d hs (Cht_inserts E d hs t)
      = Cht_inserts E d hs t ++ Cht_inserts E d hs Map.empty"
    by (rule Cht_inserts_map_add)
  also have "\<dots> = t ++ Cht_inserts E d hs Map.empty ++ Cht_inserts E d hs Map.empty"
    by (subst Cht_inserts_map_add [of E d hs t]) simp
  also have "\<dots> = t ++ Cht_inserts E d hs Map.empty"
    by (rule map_add_twice)
  also have "\<dots> = Cht_inserts E d hs t"
    by (rule Cht_inserts_map_add [symmetric])
  finally show ?thesis .
qed

lemma Cht_inserts_tds:
  "tds d' = tds d \<Longrightarrow> Cht_inserts E d' hs t = Cht_inserts E d hs t"
  by (induction hs arbitrary: t) (simp_all add: GetTd_def split: option.split)

text \<open>\<open>Process\<close> on each header of a list, when every total difficulty is present.\<close>

lemma Cht_Process_all_result:
  assumes "trie c = Some t"
    and "\<forall>x\<in>set hs. GetTd (db c) (header_Hash x) (big_Uint64 (Number x)) \<noteq> None"
  shows "Cht_Process_all E c hs
      = Inr (c\<lparr>lastHash := (if hs = [] then lastHash c else header_Hash (last hs)),
                trie := Some (Cht_inserts E (db c) hs t)\<rparr>)"
  using assms
proof (induction hs arbitrary: c t)
  case Nil
  then show ?case by simp
next
  case (Cons h hs)
  from Cons.prems(2) obtain x where
    x: "GetTd (db c) (header_Hash h) (big_Uint64 (Number h)) = Some x" by auto
  let ?t' = "t(PutUint64 (big_Uint64 (Number h))
                 \<mapsto> rlp_EncodeToBytes E \<lparr>Hash = header_Hash h, Td = x\<rparr>)"
  let ?c' = "c\<lparr>lastHash := header_Hash h, trie := Some ?t'\<rparr>"
  have p: "ChtIndexerBackend_Process E c h = Inr ?c'"
    using x Cons.prems(1) by (rule Cht_Process_step)
  have ins: "Cht_inserts E (db c) (h # hs) t = Cht_inserts E (db c) hs ?t'"
    using x by simp
  have "Cht_Process_all E c (h # hs) = Cht_Process_all E ?c' hs"
    using p by simp
  also have "\<dots>
      = Inr (?c'\<lparr>lastHash := (if hs = [] then lastHash ?c' else header_Hash (last hs)),
                trie := Some (Cht_inserts E (db ?c') hs ?t')\<rparr>)"
  proof (rule Cons.IH [of ?c' ?t'])
    show "trie ?c' = Some ?t'" by simp
    show "\<forall>x\<in>set hs. GetTd (db ?c') (header_Hash x) (big_Uint64 (Number x)) \<noteq> None"
      using Cons.prems(2) by simp
  qed
  also have "\<dots>
      = Inr (c\<lparr>lastHash := (if h # hs = [] then lastHash c else header_Hash (last (h # hs))),
                trie := Some (Cht_inserts E (db c) (h # hs) t)\<rparr>)"
    unfolding ins by simp
  finally show ?case .
qed


text \<open>The two writes of \<open>Commit\<close>, and what they leave alone.\<close>

lemma Cht_writes_tds: "tds (StoreChtRoot (fst (batch_Write d tb bt)) s lh r) = tds d"
  and Cht_writes_errs:
    "batch_put_err (StoreChtRoot (fst (batch_Write d tb bt)) s lh r) = batch_put_err d"
  by (simp_all add: StoreChtRoot_def db_Put_def batch_Write_def Let_def split: option.splits)

lemma Cht_writes_other_root:
  assumes "s' \<noteq> s"
  shows "GetChtRoot (StoreChtRoot (fst (batch_Write d tb bt)) s lh r) s' h = GetChtRoot d s' h"
proof -
  have "chtPrefix @ PutUint64 s' @ h \<noteq> chtPrefix @ PutUint64 s @ lh"
    using assms PutUint64_inj [of s' s] by (auto simp: length_PutUint64)
  then show ?thesis
    by (simp add: GetChtRoot_def db_Get_def StoreChtRoot_def db_Put_def batch_Write_def Let_def
        split: option.splits)
qed

lemma Cht_writes_trie_New:
  assumes "trie_New root d tb = Inr t0"
  shows "trie_New root (StoreChtRoot (fst (batch_Write d tb [r \<mapsto> t])) s lh r) tb = Inr t0
       \<or> trie_New root (StoreChtRoot (fst (batch_Write d tb [r \<mapsto> t])) s lh r) tb = Inr t"
  using assms
  by (auto simp: trie_New_def StoreChtRoot_def db_Put_def batch_Write_def Let_def
      split: option.splits if_splits)

lemma Cht_writes_idem:
  "StoreChtRoot (fst (batch_Write (StoreChtRoot (fst (batch_Write d tb bt)) s lh r) tb bt)) s lh r
     = StoreChtRoot (fst (batch_Write d tb bt)) s lh r"
  by (simp add: StoreChtRoot_def db_Put_def batch_Write_def Let_def map_add_twice
      split: option.splits)

lemma Cht_Reset_of_open:
  assumes "trie_New (if 0 < sec then GetChtRoot (db c) (sec - 1) h else zero_hash)
             (db c) (cdb c) = Inr t0"
  shows "ChtIndexerBackend_Reset c sec h = (c\<lparr>trie := Some t0, section := sec\<rparr>, None)"
  using assms unfolding ChtIndexerBackend_Reset_def Let_def by simp

lemma Cht_Reset_open:
  assumes "snd (ChtIndexerBackend_Reset c sec h) = None"
  shows "\<exists>t0. trie_New (if 0 < sec then GetChtRoot (db c) (sec - 1) h else zero_hash)
                 (db c) (cdb c) = Inr t0"
proof (cases "trie_New (if 0 < sec then GetChtRoot (db c) (sec - 1) h else zero_hash)
                 (db c) (cdb c)")
  case (Inl e)
  then have "snd (ChtIndexerBackend_Reset c sec h) = Some e"
    unfolding ChtIndexerBackend_Reset_def Let_def by simp
  with assms show ?thesis by simp
next
  case (Inr t0)
  then show ?thesis by blast
qed

lemma Cht_Commit_writes:
  assumes "trie c = Some t" "batch_put_err (db c) = None"
  shows "ChtIndexerBackend_Commit E c
      = Inr (c\<lparr>db := StoreChtRoot (fst (batch_Write (db c) (cdb c) [trie_root E t \<mapsto> t]))
                        (section c) (lastHash c) (trie_root E t)\<rparr>, None)"
  using assms
  by (simp add: ChtIndexerBackend_Commit_def trie_CommitTo_def NewBatch_def Let_def
      split: prod.split)

text \<open>
  C7. Let \<open>Reset\<close> open the trie for the section, every header of the list have its total
  difficulty recorded, and the trie's \<open>CommitTo\<close> succeed. Then the cycle \<open>Reset\<close>,
  \<open>Process\<close> on each header, \<open>Commit\<close> returns without error, and running it again on
  the backend and store it left, with the same section, previous head and headers, returns
  without error and leaves exactly the same backend: the same trie, hence the same root,
  and the same store, so the second \<open>Commit\<close> wrote the root record with the value it
  had. When the store's \<open>Put\<close> succeeds, that record holds the trie's root.
\<close>

theorem Cht_cycle_idempotent:
  assumes opened: "snd (ChtIndexerBackend_Reset c sec h) = None"
    and tds: "\<forall>x\<in>set hs. GetTd (db c) (header_Hash x) (big_Uint64 (Number x)) \<noteq> None"
    and put: "batch_put_err (db c) = None"
  shows "\<exists>c1 t1. Cht_cycle E c sec h hs = Inr (c1, None) \<and> trie c1 = Some t1
      \<and> Cht_cycle E c1 sec h hs = Inr (c1, None)
      \<and> (put_err (db c) = None \<longrightarrow>
           kv (db c1) (chtPrefix @ PutUint64 sec @ lastHash c1) = Some (trie_root E t1))"
proof -
  let ?root0 = "\<lambda>d. if 0 < sec then GetChtRoot d (sec - 1) h else zero_hash"
  from Cht_Reset_open [OF opened] obtain t0 where
    new: "trie_New (?root0 (db c)) (db c) (cdb c) = Inr t0"
    by blast
  define t1 where "t1 = Cht_inserts E (db c) hs t0"
  define l where "l = (if hs = [] then lastHash c else header_Hash (last hs))"
  define r where "r = trie_root E t1"
  define W where "W = (\<lambda>d. StoreChtRoot (fst (batch_Write d (cdb c) [r \<mapsto> t1])) sec l r)"
  define cA where "cA = c\<lparr>trie := Some t0, section := sec\<rparr>"
  define c2 where "c2 = cA\<lparr>lastHash := l, trie := Some t1\<rparr>"
  define c1 where "c1 = c2\<lparr>db := W (db c)\<rparr>"
  have selA: "db cA = db c" "trie cA = Some t0" "lastHash cA = lastHash c"
    by (simp_all add: cA_def)
  have sel2: "db c2 = db c" "cdb c2 = cdb c" "section c2 = sec" "lastHash c2 = l"
    "trie c2 = Some t1"
    by (simp_all add: c2_def cA_def)
  have sel1: "db c1 = W (db c)" "cdb c1 = cdb c" "section c1 = sec" "lastHash c1 = l"
    "trie c1 = Some t1"
    by (simp_all add: c1_def c2_def cA_def)
  have reset: "ChtIndexerBackend_Reset c sec h = (cA, None)"
    unfolding cA_def using new by (rule Cht_Reset_of_open)
  have "Cht_Process_all E cA hs
      = Inr (cA\<lparr>lastHash := (if hs = [] then lastHash cA else header_Hash (last hs)),
                  trie := Some (Cht_inserts E (db cA) hs t0)\<rparr>)"
  proof (rule Cht_Process_all_result)
    show "trie cA = Some t0" by (rule selA)
    show "\<forall>x\<in>set hs. GetTd (db cA) (header_Hash x) (big_Uint64 (Number x)) \<noteq> None"
      unfolding selA by (rule tds)
  qed
  then have run: "Cht_Process_all E cA hs = Inr c2"
    unfolding selA c2_def t1_def l_def .
  have "ChtIndexerBackend_Commit E c2
      = Inr (c2\<lparr>db := StoreChtRoot
                (fst (batch_Write (db c2) (cdb c2) [trie_root E t1 \<mapsto> t1]))
                (section c2) (lastHash c2) (trie_root E t1)\<rparr>, None)"
  proof (rule Cht_Commit_writes)
    show "trie c2 = Some t1" by (rule sel2)
    show "batch_put_err (db c2) = None" unfolding sel2 by (rule put)
  qed
  then have commit: "ChtIndexerBackend_Commit E c2 = Inr (c1, None)"
    unfolding sel2 c1_def W_def r_def .
  have first: "Cht_cycle E c sec h hs = Inr (c1, None)"
    by (simp add: Cht_cycle_def reset run commit)
  have root: "?root0 (W (db c)) = ?root0 (db c)"
  proof (cases "0 < sec")
    case True
    have "sec - 1 \<noteq> sec" by simp
    then show ?thesis using True by (simp add: W_def Cht_writes_other_root)
  next
    case False
    then show ?thesis by simp
  qed
  from Cht_writes_trie_New [OF new, of r t1 sec l] obtain tB where
    a: "trie_New (?root0 (db c)) (W (db c)) (cdb c) = Inr tB" and tB: "tB = t0 \<or> tB = t1"
    unfolding W_def by blast
  define cB where "cB = c1\<lparr>trie := Some tB, section := sec\<rparr>"
  have selB: "db cB = W (db c)" "trie cB = Some tB" "lastHash cB = l"
    by (simp_all add: cB_def sel1)
  have "trie_New (?root0 (db c1)) (db c1) (cdb c1) = Inr tB"
    unfolding sel1 root by (rule a)
  then have reset2: "ChtIndexerBackend_Reset c1 sec h = (cB, None)"
    unfolding cB_def by (rule Cht_Reset_of_open)
  have tdsW: "tds (W (db c)) = tds (db c)"
    by (simp add: W_def Cht_writes_tds)
  have ins: "Cht_inserts E (W (db c)) hs tB = t1"
  proof -
    have "Cht_inserts E (W (db c)) hs tB = Cht_inserts E (db c) hs tB"
      using tdsW by (rule Cht_inserts_tds)
    also have "\<dots> = t1"
      using tB by (auto simp: t1_def Cht_inserts_idem)
    finally show ?thesis .
  qed
  have lB: "(if hs = [] then l else header_Hash (last hs)) = l"
    by (simp add: l_def)
  have again: "cB\<lparr>lastHash := l, trie := Some t1\<rparr> = c1"
    by (simp add: cB_def c1_def c2_def cA_def)
  have "Cht_Process_all E cB hs
      = Inr (cB\<lparr>lastHash := (if hs = [] then lastHash cB else header_Hash (last hs)),
                  trie := Some (Cht_inserts E (db cB) hs tB)\<rparr>)"
  proof (rule Cht_Process_all_result)
    show "trie cB = Some tB" by (rule selB)
    show "\<forall>x\<in>set hs. GetTd (db cB) (header_Hash x) (big_Uint64 (Number x)) \<noteq> None"
      using tds unfolding selB GetTd_def tdsW .
  qed
  then have run2: "Cht_Process_all E cB hs = Inr c1"
    unfolding selB ins lB again .
  have "ChtIndexerBackend_Commit E c1
      = Inr (c1\<lparr>db := StoreChtRoot
                (fst (batch_Write (db c1) (cdb c1) [trie_root E t1 \<mapsto> t1]))
                (section c1) (lastHash c1) (trie_root E t1)\<rparr>, None)"
  proof (rule Cht_Commit_writes)
    show "trie c1 = Some t1" by (rule sel1)
    show "batch_put_err (db c1) = None"
      unfolding sel1 using put by (simp add: W_def Cht_writes_errs)
  qed
  then have "ChtIndexerBackend_Commit E c1 = Inr (c1\<lparr>db := W (W (db c))\<rparr>, None)"
    unfolding sel1 W_def r_def .
  moreover have "W (W (db c)) = W (db c)"
    by (simp add: W_def Cht_writes_idem)
  moreover have "c1\<lparr>db := W (db c)\<rparr> = c1"
    by (simp add: c1_def)
  ultimately have commit2: "ChtIndexerBackend_Commit E c1 = Inr (c1, None)"
    by simp
  have second: "Cht_cycle E c1 sec h hs = Inr (c1, None)"
    by (simp add: Cht_cycle_def reset2 run2 commit2)
  have stored: "put_err (db c) = None \<longrightarrow>
      kv (db c1) (chtPrefix @ PutUint64 sec @ lastHash c1) = Some (trie_root E t1)"
    unfolding sel1 by (simp add: W_def r_def kv_StoreChtRoot put_err_batch_Write)
  show ?thesis
  proof (intro exI conjI)
    show "Cht_cycle E c sec h hs = Inr (c1, None)" by (rule first)
    show "trie c1 = Some t1" by (rule sel1)
    show "Cht_cycle E c1 sec h hs = Inr (c1, None)" by (rule second)
    show "put_err (db c) = None \<longrightarrow>
      kv (db c1) (chtPrefix @ PutUint64 sec @ lastHash c1) = Some (trie_root E t1)"
      by (rule stored)
  qed
qed


theorem Cht_cycle_idempotent_witness:
  "\<exists>c1 t1. Cht_cycle ex_E (NewChtIndexer ex_db_td False) 0 zero_hash [ex_hdr] = Inr (c1, None)
      \<and> trie c1 = Some t1
      \<and> Cht_cycle ex_E c1 0 zero_hash [ex_hdr] = Inr (c1, None)
      \<and> kv (db c1) (chtPrefix @ PutUint64 0 @ lastHash c1) = Some (trie_root ex_E t1)"
proof -
  let ?c = "NewChtIndexer ex_db_td False"
  have d: "db ?c = ex_db_td" by (simp add: NewChtIndexer_def)
  have 1: "snd (ChtIndexerBackend_Reset ?c 0 zero_hash) = None"
    by (simp add: ChtIndexerBackend_Reset_def trie_New_def)
  have 2: "\<forall>x\<in>set [ex_hdr]. GetTd (db ?c) (header_Hash x) (big_Uint64 (Number x)) \<noteq> None"
    unfolding d by (simp add: ex_db_td_def GetTd_def)
  have 3: "batch_put_err (db ?c) = None" and 4: "put_err (db ?c) = None"
    unfolding d by (simp_all add: ex_db_td_def ex_db_def)
  from Cht_cycle_idempotent [OF 1 2 3, of ex_E] 4 show ?thesis
    by blast
qed

end
